theory Spec2Isabelle
  imports Complex_Main
begin

section \<open>JavaScript numbers\<close>

text \<open>
  The curve generators of \<^verbatim>\<open>lib/psychrometrics.ts\<close> branch on \<^verbatim>\<open>Number.isFinite\<close> and on
  comparisons that are false for NaN, so a number is a real, one of the two infinities,
  or NaN. Arithmetic on finite values is exact (rounding and overflow of IEEE doubles are
  not modelled) and zero carries no sign.
\<close>

datatype num = Fin real | PInf | NInf | NaN

fun isFinite :: "num \<Rightarrow> bool" where
  "isFinite (Fin _) = True"
| "isFinite _ = False"

fun js_le :: "num \<Rightarrow> num \<Rightarrow> bool" where
  "js_le NaN _ = False"
| "js_le _ NaN = False"
| "js_le NInf _ = True"
| "js_le _ PInf = True"
| "js_le (Fin a) (Fin b) = (a \<le> b)"
| "js_le _ _ = False"

fun js_lt :: "num \<Rightarrow> num \<Rightarrow> bool" where
  "js_lt NaN _ = False"
| "js_lt _ NaN = False"
| "js_lt (Fin a) (Fin b) = (a < b)"
| "js_lt PInf _ = False"
| "js_lt _ NInf = False"
| "js_lt _ _ = True"

definition js_ge :: "num \<Rightarrow> num \<Rightarrow> bool" where
  "js_ge a b = js_le b a"

definition js_gt :: "num \<Rightarrow> num \<Rightarrow> bool" where
  "js_gt a b = js_lt b a"

fun js_neg :: "num \<Rightarrow> num" where
  "js_neg (Fin a) = Fin (- a)"
| "js_neg PInf = NInf"
| "js_neg NInf = PInf"
| "js_neg NaN = NaN"

fun js_add :: "num \<Rightarrow> num \<Rightarrow> num" where
  "js_add (Fin a) (Fin b) = Fin (a + b)"
| "js_add NaN _ = NaN"
| "js_add _ NaN = NaN"
| "js_add PInf NInf = NaN"
| "js_add NInf PInf = NaN"
| "js_add PInf _ = PInf"
| "js_add _ PInf = PInf"
| "js_add NInf _ = NInf"
| "js_add _ NInf = NInf"

definition js_sub :: "num \<Rightarrow> num \<Rightarrow> num" where
  "js_sub a b = js_add a (js_neg b)"

fun js_abs :: "num \<Rightarrow> num" where
  "js_abs (Fin a) = Fin \<bar>a\<bar>"
| "js_abs PInf = PInf"
| "js_abs NInf = PInf"
| "js_abs NaN = NaN"

fun js_mul :: "num \<Rightarrow> num \<Rightarrow> num" where
  "js_mul (Fin a) (Fin b) = Fin (a * b)"
| "js_mul NaN _ = NaN"
| "js_mul _ NaN = NaN"
| "js_mul (Fin a) PInf = (if a = 0 then NaN else if 0 < a then PInf else NInf)"
| "js_mul (Fin a) NInf = (if a = 0 then NaN else if 0 < a then NInf else PInf)"
| "js_mul PInf (Fin b) = (if b = 0 then NaN else if 0 < b then PInf else NInf)"
| "js_mul NInf (Fin b) = (if b = 0 then NaN else if 0 < b then NInf else PInf)"
| "js_mul PInf PInf = PInf"
| "js_mul NInf NInf = PInf"
| "js_mul PInf NInf = NInf"
| "js_mul NInf PInf = NInf"

fun js_div :: "num \<Rightarrow> num \<Rightarrow> num" where
  "js_div (Fin a) (Fin b) =
     (if b = 0 then (if a = 0 then NaN else if 0 < a then PInf else NInf) else Fin (a / b))"
| "js_div NaN _ = NaN"
| "js_div _ NaN = NaN"
| "js_div (Fin a) PInf = Fin 0"
| "js_div (Fin a) NInf = Fin 0"
| "js_div PInf (Fin b) = (if 0 \<le> b then PInf else NInf)"
| "js_div NInf (Fin b) = (if 0 \<le> b then NInf else PInf)"
| "js_div PInf PInf = NaN"
| "js_div PInf NInf = NaN"
| "js_div NInf PInf = NaN"
| "js_div NInf NInf = NaN"

text \<open>\<^verbatim>\<open>Math.max\<close> and \<^verbatim>\<open>Math.min\<close> return NaN as soon as one argument is NaN.\<close>

definition Math_max :: "num \<Rightarrow> num \<Rightarrow> num" where
  "Math_max a b = (if a = NaN \<or> b = NaN then NaN else if js_le a b then b else a)"

definition Math_min :: "num \<Rightarrow> num \<Rightarrow> num" where
  "Math_min a b = (if a = NaN \<or> b = NaN then NaN else if js_le a b then a else b)"

section \<open>The property solver\<close>

text \<open>
  \<^verbatim>\<open>psychrolib\<close> is a third-party package: the repository holds only its type declaration.
  Its operations are therefore a parameter of every definition below. A call returns a
  number, which may be NaN or infinite, or throws. The package keeps the unit system in a
  global that \<^verbatim>\<open>withUnitSystem\<close> sets before running its callback; here the library
  is a function of the unit system and \<^verbatim>\<open>withUnitSystem\<close> passes the selected
  instance to the callback.
\<close>

datatype UnitSystem = SI | IP

datatype error = SolverError

record PsychroLib =
  GetHumRatioFromRelHum :: "num \<Rightarrow> num \<Rightarrow> num \<Rightarrow> error + num"
  GetHumRatioFromTWetBulb :: "num \<Rightarrow> num \<Rightarrow> num \<Rightarrow> error + num"
  GetTWetBulbFromHumRatio :: "num \<Rightarrow> num \<Rightarrow> num \<Rightarrow> error + num"
  GetTDewPointFromHumRatio :: "num \<Rightarrow> num \<Rightarrow> num \<Rightarrow> error + num"
  GetMoistAirEnthalpy :: "num \<Rightarrow> num \<Rightarrow> error + num"
  GetMoistAirVolume :: "num \<Rightarrow> num \<Rightarrow> num \<Rightarrow> error + num"
  GetMoistAirDensity :: "num \<Rightarrow> num \<Rightarrow> num \<Rightarrow> error + num"
  GetVapPresFromHumRatio :: "num \<Rightarrow> num \<Rightarrow> error + num"
  GetSatHumRatio :: "num \<Rightarrow> num \<Rightarrow> error + num"
  GetRelHumFromHumRatio :: "num \<Rightarrow> num \<Rightarrow> num \<Rightarrow> error + num"
  GetTDryBulbFromEnthalpyAndHumRatio :: "num \<Rightarrow> num \<Rightarrow> error + num"

definition withUnitSystem :: "(UnitSystem \<Rightarrow> PsychroLib) \<Rightarrow> UnitSystem \<Rightarrow> (PsychroLib \<Rightarrow> 'a) \<Rightarrow> 'a" where
  "withUnitSystem lib system callback = callback (lib system)"

text \<open>Sequencing inside a \<^verbatim>\<open>try\<close> block: the first throw ends the block.\<close>

definition andThen :: "error + 'a \<Rightarrow> ('a \<Rightarrow> error + 'b) \<Rightarrow> error + 'b" where
  "andThen r f = (case r of Inl e \<Rightarrow> Inl e | Inr v \<Rightarrow> f v)"

section \<open>Single states\<close>

record PsychroInputs =
  in_pressure :: num
  in_dryBulb :: num
  in_relativeHumidity :: num

record PsychroState =
  st_dryBulb :: num
  st_wetBulb :: num
  st_dewPoint :: num
  st_relativeHumidity :: num
  st_humidityRatio :: num
  st_enthalpy :: num
  st_specificVolume :: num
  st_density :: num
  st_vaporPressure :: num
  st_saturationHumidityRatio :: num

definition clamp :: "num \<Rightarrow> num \<Rightarrow> num \<Rightarrow> num" where
  "clamp v mn mx = Math_min (Math_max v mn) mx"

definition relativeHumidityFraction :: "PsychroInputs \<Rightarrow> num" where
  "relativeHumidityFraction inputs = clamp (js_div (in_relativeHumidity inputs) (Fin 100)) (Fin 0) (Fin 1)"

text \<open>\<^verbatim>\<open>computePsychrometrics\<close>: \<open>None\<close> is the \<^verbatim>\<open>null\<close> of the catch branch.\<close>

definition computePsychrometrics ::
  "(UnitSystem \<Rightarrow> PsychroLib) \<Rightarrow> PsychroInputs \<Rightarrow> UnitSystem \<Rightarrow> PsychroState option" where
  "computePsychrometrics lib inputs system =
     (let dryBulb = in_dryBulb inputs; pressure = in_pressure inputs;
          fraction = relativeHumidityFraction inputs
      in withUnitSystem lib system (\<lambda>psy.
        case
          andThen (GetHumRatioFromRelHum psy dryBulb fraction pressure) (\<lambda>humidityRatio.
          andThen (GetTWetBulbFromHumRatio psy dryBulb humidityRatio pressure) (\<lambda>wetBulb.
          andThen (GetTDewPointFromHumRatio psy dryBulb humidityRatio pressure) (\<lambda>dewPoint.
          andThen (GetMoistAirEnthalpy psy dryBulb humidityRatio) (\<lambda>enthalpy.
          andThen (GetMoistAirVolume psy dryBulb humidityRatio pressure) (\<lambda>specificVolume.
          andThen (GetMoistAirDensity psy dryBulb humidityRatio pressure) (\<lambda>density.
          andThen (GetVapPresFromHumRatio psy humidityRatio pressure) (\<lambda>vaporPressure.
          andThen (GetSatHumRatio psy dryBulb pressure) (\<lambda>saturationHumidityRatio.
            Inr \<lparr> st_dryBulb = dryBulb, st_wetBulb = wetBulb, st_dewPoint = dewPoint,
                  st_relativeHumidity = js_mul fraction (Fin 100),
                  st_humidityRatio = humidityRatio, st_enthalpy = enthalpy,
                  st_specificVolume = specificVolume, st_density = density,
                  st_vaporPressure = vaporPressure,
                  st_saturationHumidityRatio = saturationHumidityRatio \<rparr>))))))))
        of Inl _ \<Rightarrow> None | Inr state \<Rightarrow> Some state))"

section \<open>Curve generators\<close>

record CurvePoint =
  dryBulb :: num
  humidityRatio :: num
  enthalpy :: num

text \<open>
  A curve carries its level and its points. The \<^verbatim>\<open>id\<close> and \<^verbatim>\<open>label\<close> strings of the
  source are formatted from the level and read by no generator, so they are left out.
\<close>

record Curve =
  level :: num
  points :: "CurvePoint list"

text \<open>
  \<^verbatim>\<open>for (let t = lo; t <= hi; t += step) body\<close>. The source puts no condition on
  \<^verbatim>\<open>step\<close>, so the loop need not end: \<open>None\<close> is the run that never returns. The body
  maps the loop variable and the points pushed so far to the points pushed after it.
\<close>

partial_function (option) for_le ::
  "(num \<Rightarrow> 'a \<Rightarrow> 'a) \<Rightarrow> num \<Rightarrow> num \<Rightarrow> num \<Rightarrow> 'a \<Rightarrow> 'a option" where
  "for_le body t hi step acc =
     (if js_le t hi then for_le body (js_add t step) hi step (body t acc) else Some acc)"

declare for_le.simps [code]

text \<open>
  The values the loop variable takes when both bounds are finite and the step is finite and
  positive: \<open>t, t + s, t + 2 s, \<dots>\<close> up to \<open>hi\<close>. Lemma \<open>for_le_samples\<close> below shows
  that the loop then ends and runs its body on exactly these values, in this order.
\<close>

function samples :: "real \<Rightarrow> real \<Rightarrow> real \<Rightarrow> real list" where
  "samples t hi s = (if 0 < s \<and> t \<le> hi then t # samples (t + s) hi s else [])"
  by pat_completeness auto
termination
proof (relation "measure (\<lambda>(t, hi, s). nat (\<lfloor>(hi - t) / s\<rfloor> + 1))")
  show "wf (measure (\<lambda>(t, hi, s). nat (\<lfloor>(hi - t) / s\<rfloor> + 1)))" by simp
next
  fix t hi s :: real
  assume a: "0 < s \<and> t \<le> hi"
  then have s: "0 < s" and t: "t \<le> hi" by simp_all
  have "(hi - (t + s)) / s = (hi - t) / s - 1"
    using s by (simp add: field_simps)
  then have "\<lfloor>(hi - (t + s)) / s\<rfloor> = \<lfloor>(hi - t) / s\<rfloor> - 1" by simp
  moreover have "0 \<le> \<lfloor>(hi - t) / s\<rfloor>" using s t by simp
  ultimately show "((t + s, hi, s), (t, hi, s)) \<in> measure (\<lambda>(t, hi, s). nat (\<lfloor>(hi - t) / s\<rfloor> + 1))"
    by simp
qed

declare samples.simps [simp del]

text \<open>\<^verbatim>\<open>levels.map(f)\<close> where a call of \<open>f\<close> may never return.\<close>

fun mapM :: "('a \<Rightarrow> 'b option) \<Rightarrow> 'a list \<Rightarrow> 'b list option" where
  "mapM f [] = Some []"
| "mapM f (x # xs) =
     (case f x of None \<Rightarrow> None
      | Some y \<Rightarrow> (case mapM f xs of None \<Rightarrow> None | Some ys \<Rightarrow> Some (y # ys)))"

definition pushPoint :: "CurvePoint list \<Rightarrow> num \<Rightarrow> num \<Rightarrow> num \<Rightarrow> CurvePoint list" where
  "pushPoint ps t w h = ps @ [\<lparr> dryBulb = t, humidityRatio = w, enthalpy = h \<rparr>]"

subsection \<open>Saturation curve\<close>

definition saturationBody :: "PsychroLib \<Rightarrow> num \<Rightarrow> num \<Rightarrow> CurvePoint list \<Rightarrow> CurvePoint list" where
  "saturationBody psy pressure t ps =
     (case andThen (GetSatHumRatio psy t pressure) (\<lambda>w.
           andThen (GetMoistAirEnthalpy psy t w) (\<lambda>h. Inr (pushPoint ps t w h)))
      of Inl _ \<Rightarrow> ps | Inr ps' \<Rightarrow> ps')"

definition defaultSaturationStep :: "UnitSystem \<Rightarrow> num" where
  "defaultSaturationStep system = (if system = SI then Fin (1/2) else Fin 1)"

text \<open>The result is the \<^verbatim>\<open>points\<close> array of the returned object (its \<^verbatim>\<open>id\<close> and
  \<^verbatim>\<open>label\<close> are the constants \<^verbatim>\<open>"saturation"\<close> and \<^verbatim>\<open>"100% RH"\<close>).\<close>

definition generateSaturationCurve ::
  "(UnitSystem \<Rightarrow> PsychroLib) \<Rightarrow> UnitSystem \<Rightarrow> num \<Rightarrow> num \<times> num \<Rightarrow> num \<Rightarrow> CurvePoint list option" where
  "generateSaturationCurve lib system pressure dryBulbRange step =
     withUnitSystem lib system (\<lambda>psy.
       for_le (saturationBody psy pressure) (fst dryBulbRange) (snd dryBulbRange) step [])"

subsection \<open>Constant relative humidity\<close>

definition relativeHumidityBody ::
  "PsychroLib \<Rightarrow> num \<Rightarrow> num \<Rightarrow> num \<Rightarrow> CurvePoint list \<Rightarrow> CurvePoint list" where
  "relativeHumidityBody psy pressure lvl t ps =
     (case andThen (GetHumRatioFromRelHum psy t lvl pressure) (\<lambda>w.
           andThen (GetMoistAirEnthalpy psy t w) (\<lambda>h. Inr (pushPoint ps t w h)))
      of Inl _ \<Rightarrow> ps | Inr ps' \<Rightarrow> ps')"

definition relativeHumidityCurve ::
  "PsychroLib \<Rightarrow> num \<Rightarrow> num \<times> num \<Rightarrow> num \<Rightarrow> num \<Rightarrow> Curve option" where
  "relativeHumidityCurve psy pressure dryBulbRange step lvl =
     map_option (\<lambda>ps. \<lparr> level = lvl, points = ps \<rparr>)
       (for_le (relativeHumidityBody psy pressure lvl) (fst dryBulbRange) (snd dryBulbRange) step [])"

definition generateRelativeHumidityCurves ::
  "(UnitSystem \<Rightarrow> PsychroLib) \<Rightarrow> UnitSystem \<Rightarrow> num \<Rightarrow> num \<times> num \<Rightarrow> num list \<Rightarrow> num \<Rightarrow> Curve list option" where
  "generateRelativeHumidityCurves lib system pressure dryBulbRange levels step =
     withUnitSystem lib system (\<lambda>psy.
       mapM (relativeHumidityCurve psy pressure dryBulbRange step) levels)"

subsection \<open>Constant enthalpy\<close>

definition enthalpyBody ::
  "PsychroLib \<Rightarrow> num \<times> num \<Rightarrow> num \<Rightarrow> num \<Rightarrow> CurvePoint list \<Rightarrow> CurvePoint list" where
  "enthalpyBody psy dryBulbRange enthalpyTarget w ps =
     (case GetTDryBulbFromEnthalpyAndHumRatio psy enthalpyTarget w of
        Inl _ \<Rightarrow> ps
      | Inr t \<Rightarrow>
          if js_ge t (fst dryBulbRange) \<and> js_le t (snd dryBulbRange)
          then pushPoint ps t w enthalpyTarget else ps)"

definition enthalpyCurve ::
  "PsychroLib \<Rightarrow> num \<times> num \<Rightarrow> num \<Rightarrow> num \<Rightarrow> Curve option" where
  "enthalpyCurve psy dryBulbRange step enthalpyTarget =
     map_option (\<lambda>ps. \<lparr> level = enthalpyTarget, points = ps \<rparr>)
       (for_le (enthalpyBody psy dryBulbRange enthalpyTarget) (Fin 0) (Fin (6/100)) step [])"

text \<open>The \<^verbatim>\<open>pressure\<close> argument of the source is not read by this generator.\<close>

definition generateEnthalpyLines ::
  "(UnitSystem \<Rightarrow> PsychroLib) \<Rightarrow> UnitSystem \<Rightarrow> num \<Rightarrow> num \<times> num \<Rightarrow> num list \<Rightarrow> num \<Rightarrow> Curve list option" where
  "generateEnthalpyLines lib system pressure dryBulbRange enthalpyValues step =
     withUnitSystem lib system (\<lambda>psy.
       mapM (enthalpyCurve psy dryBulbRange step) enthalpyValues)"

subsection \<open>Constant wet bulb\<close>

definition wetBulbBody ::
  "PsychroLib \<Rightarrow> num \<Rightarrow> num \<Rightarrow> num \<Rightarrow> CurvePoint list \<Rightarrow> CurvePoint list" where
  "wetBulbBody psy pressure wetBulbTarget t ps =
     (case GetHumRatioFromTWetBulb psy t wetBulbTarget pressure of
        Inl _ \<Rightarrow> ps
      | Inr w \<Rightarrow>
          if \<not> isFinite w then ps
          else (case GetMoistAirEnthalpy psy t w of
                  Inl _ \<Rightarrow> ps
                | Inr h \<Rightarrow> pushPoint ps t w h))"

definition wetBulbCurve ::
  "PsychroLib \<Rightarrow> num \<Rightarrow> num \<times> num \<Rightarrow> num \<Rightarrow> num \<Rightarrow> Curve option" where
  "wetBulbCurve psy pressure dryBulbRange step wetBulbTarget =
     (if \<not> isFinite wetBulbTarget then Some \<lparr> level = wetBulbTarget, points = [] \<rparr>
      else
        let start = Math_max wetBulbTarget (fst dryBulbRange)
        in map_option (\<lambda>ps. \<lparr> level = wetBulbTarget, points = ps \<rparr>)
             (for_le (wetBulbBody psy pressure wetBulbTarget) start (snd dryBulbRange) step []))"

definition generateWetBulbLines ::
  "(UnitSystem \<Rightarrow> PsychroLib) \<Rightarrow> UnitSystem \<Rightarrow> num \<Rightarrow> num \<times> num \<Rightarrow> num list \<Rightarrow> num \<Rightarrow> Curve list option" where
  "generateWetBulbLines lib system pressure dryBulbRange wetBulbValues step =
     withUnitSystem lib system (\<lambda>psy.
       mapM (wetBulbCurve psy pressure dryBulbRange step) wetBulbValues)"

subsection \<open>Constant specific volume\<close>

text \<open>
  The inner loop \<^verbatim>\<open>for (let i = 0; i < 25; i += 1)\<close>. It returns the value
  \<^verbatim>\<open>humidityRatio\<close> holds when the loop is left, by \<^verbatim>\<open>break\<close> or by the bound; a throw
  of the solver leaves the enclosing \<^verbatim>\<open>try\<close>.
\<close>

function bisect ::
  "PsychroLib \<Rightarrow> num \<Rightarrow> num \<Rightarrow> num \<Rightarrow> num \<Rightarrow> nat \<Rightarrow> num \<Rightarrow> num \<Rightarrow> num \<Rightarrow> error + num" where
  "bisect psy t pressure targetVolume tolerance i low high w =
     (if i < 25 then
        (case GetMoistAirVolume psy t (js_div (js_add low high) (Fin 2)) pressure of
           Inl e \<Rightarrow> Inl e
         | Inr volume \<Rightarrow>
             if \<not> isFinite volume then Inr w
             else if js_le (js_abs (js_sub volume targetVolume)) tolerance
               then Inr (js_div (js_add low high) (Fin 2))
             else if js_gt volume targetVolume
               then bisect psy t pressure targetVolume tolerance (i + 1)
                      low (js_div (js_add low high) (Fin 2)) (js_div (js_add low high) (Fin 2))
             else bisect psy t pressure targetVolume tolerance (i + 1)
                      (js_div (js_add low high) (Fin 2)) high (js_div (js_add low high) (Fin 2)))
      else Inr w)"
  by pat_completeness auto
termination
  by (relation "measure (\<lambda>(psy, t, pressure, targetVolume, tolerance, i, low, high, w). 25 - i)") auto

declare bisect.simps [simp del]

definition specificVolumeBody ::
  "PsychroLib \<Rightarrow> num \<Rightarrow> num \<Rightarrow> num \<Rightarrow> num \<Rightarrow> CurvePoint list \<Rightarrow> CurvePoint list" where
  "specificVolumeBody psy pressure targetVolume tolerance t ps =
     (case GetSatHumRatio psy t pressure of
        Inl _ \<Rightarrow> ps
      | Inr satHum \<Rightarrow>
          if \<not> isFinite satHum \<or> js_le satHum (Fin 0) then ps
          else (case bisect psy t pressure targetVolume tolerance 0 (Fin 0) satHum satHum of
                  Inl _ \<Rightarrow> ps
                | Inr w \<Rightarrow>
                    if js_gt w (Fin 0) \<and> js_le w satHum
                    then (case GetMoistAirEnthalpy psy t w of
                            Inl _ \<Rightarrow> ps
                          | Inr h \<Rightarrow> pushPoint ps t w h)
                    else ps))"

definition defaultTolerance :: num where
  "defaultTolerance = Fin (1 / 10000)"

definition specificVolumeCurve ::
  "PsychroLib \<Rightarrow> num \<Rightarrow> num \<times> num \<Rightarrow> num \<Rightarrow> num \<Rightarrow> num \<Rightarrow> Curve option" where
  "specificVolumeCurve psy pressure dryBulbRange dryBulbStep tolerance targetVolume =
     (if \<not> isFinite targetVolume \<or> js_le targetVolume (Fin 0)
      then Some \<lparr> level = targetVolume, points = [] \<rparr>
      else map_option (\<lambda>ps. \<lparr> level = targetVolume, points = ps \<rparr>)
             (for_le (specificVolumeBody psy pressure targetVolume tolerance)
                (fst dryBulbRange) (snd dryBulbRange) dryBulbStep []))"

definition generateSpecificVolumeLines ::
  "(UnitSystem \<Rightarrow> PsychroLib) \<Rightarrow> UnitSystem \<Rightarrow> num \<Rightarrow> num \<times> num \<Rightarrow> num list \<Rightarrow> num \<Rightarrow> num \<Rightarrow> Curve list option" where
  "generateSpecificVolumeLines lib system pressure dryBulbRange specificVolumeValues dryBulbStep tolerance =
     withUnitSystem lib system (\<lambda>psy.
       mapM (specificVolumeCurve psy pressure dryBulbRange dryBulbStep tolerance) specificVolumeValues)"

section \<open>Level-of-detail selection\<close>

text \<open>
  The chart component (\<^verbatim>\<open>components/psychro-chart.tsx\<close>) derives the levels of each curve
  family from the zoom factor \<^verbatim>\<open>transform.k\<close>, a finite number. The levels are literals
  and short sums of literals, modelled as exact reals. A JavaScript \<^verbatim>\<open>Set\<close> keeps its
  elements in insertion order without duplicates.
\<close>

definition set_add :: "real \<Rightarrow> real list \<Rightarrow> real list" where
  "set_add v s = (if v \<in> set s then s else s @ [v])"

definition new_Set :: "real list \<Rightarrow> real list" where
  "new_Set xs = foldl (\<lambda>s v. set_add v s) [] xs"

text \<open>\<^verbatim>\<open>Array.from(set).sort((a, b) => a - b)\<close>\<close>

definition sortAscending :: "real list \<Rightarrow> real list" where
  "sortAscending s = sort s"

text \<open>\<^verbatim>\<open>Number(v.toFixed(d))\<close>: the nearest multiple of \<open>10\<^sup>-\<^sup>d\<close>, the larger one on
  a tie, taken on the absolute value.\<close>

definition toFixedNumber :: "nat \<Rightarrow> real \<Rightarrow> real" where
  "toFixedNumber d v =
     (if v < 0 then - (of_int \<lfloor>(- v) * 10 ^ d + 1 / 2\<rfloor> / 10 ^ d)
      else of_int \<lfloor>v * 10 ^ d + 1 / 2\<rfloor> / 10 ^ d)"

function rhLoop1 :: "real \<Rightarrow> real list \<Rightarrow> real list" where
  "rhLoop1 v s = (if v < 0.95 then rhLoop1 (v + 0.1) (set_add (toFixedNumber 2 v) s) else s)"
  by pat_completeness auto
termination
  by (relation "measure (\<lambda>(v, s). nat \<lceil>(0.95 - v) * 10\<rceil>)") (auto, linarith)

function rhLoop2 :: "real \<Rightarrow> real list \<Rightarrow> real list" where
  "rhLoop2 v s = (if v < 0.98 then rhLoop2 (v + 0.04) (set_add (toFixedNumber 2 v) s) else s)"
  by pat_completeness auto
termination
  by (relation "measure (\<lambda>(v, s). nat \<lceil>(0.98 - v) * 25\<rceil>)") (auto, linarith)

function rhLoop3 :: "real \<Rightarrow> real list \<Rightarrow> real list" where
  "rhLoop3 v s = (if v < 0.99 then rhLoop3 (v + 0.02) (set_add (toFixedNumber 2 v) s) else s)"
  by pat_completeness auto
termination
  by (relation "measure (\<lambda>(v, s). nat \<lceil>(0.99 - v) * 50\<rceil>)") (auto, linarith)

declare rhLoop1.simps [simp del] rhLoop2.simps [simp del] rhLoop3.simps [simp del]

definition rhBase :: "real list" where
  "rhBase = [0.1, 0.2, 0.3, 0.4, 0.5, 0.6, 0.7, 0.8, 0.9, 0.98]"

definition relativeHumidityLevels :: "real \<Rightarrow> real list" where
  "relativeHumidityLevels zoomLevel =
     (let s0 = new_Set rhBase;
          s1 = (if zoomLevel > 1.8 then rhLoop1 0.05 s0 else s0);
          s2 = (if zoomLevel > 3.5 then rhLoop2 0.02 s1 else s1);
          s3 = (if zoomLevel > 5 then rhLoop3 0.01 s2 else s2)
      in sortAscending s3)"

text \<open>\<^verbatim>\<open>base.forEach((val) => set.add(f(val)))\<close>\<close>

definition addEach :: "(real \<Rightarrow> real) \<Rightarrow> real list \<Rightarrow> real list \<Rightarrow> real list" where
  "addEach f base s = foldl (\<lambda>acc val. set_add (f val) acc) s base"

definition enthalpyBase :: "UnitSystem \<Rightarrow> real list" where
  "enthalpyBase unitSystem =
     (if unitSystem = SI then [0, 10, 20, 30, 40, 50, 60, 80, 100, 120]
      else [0, 10, 20, 30, 40, 50])"

definition enthalpyValues :: "UnitSystem \<Rightarrow> real \<Rightarrow> real list" where
  "enthalpyValues unitSystem zoomLevel =
     (let base = enthalpyBase unitSystem;
          s0 = new_Set base;
          s1 = (if zoomLevel > 1.8
                then addEach (\<lambda>val. val + (if unitSystem = SI then 5 else 5)) base s0 else s0);
          s2 = (if zoomLevel > 3.5
                then addEach (\<lambda>val. val + (if unitSystem = SI then 2.5 else 2.5)) base s1 else s1)
      in sortAscending s2)"

definition wetBulbBase :: "UnitSystem \<Rightarrow> real list" where
  "wetBulbBase unitSystem =
     (if unitSystem = SI then [-10, -5, 0, 5, 10, 15, 20, 25, 30]
      else [10, 20, 30, 40, 50, 60, 70])"

definition wetBulbValues :: "UnitSystem \<Rightarrow> real \<Rightarrow> real list" where
  "wetBulbValues unitSystem zoomLevel =
     (let base = wetBulbBase unitSystem;
          s0 = new_Set base;
          s1 = (if zoomLevel > 1.8
                then addEach (\<lambda>v. v + (if unitSystem = SI then 2.5 else 5)) base s0 else s0);
          s2 = (if zoomLevel > 3.5
                then addEach (\<lambda>v. v + (if unitSystem = SI then 1.25 else 2.5)) base s1 else s1)
      in sortAscending s2)"

definition specificVolumeBase :: "UnitSystem \<Rightarrow> real list" where
  "specificVolumeBase unitSystem =
     (if unitSystem = SI then [0.75, 0.8, 0.85, 0.9, 0.95, 1.0, 1.05, 1.1]
      else [12.5, 13, 13.5, 14, 14.5, 15])"

definition specificVolumeValues :: "UnitSystem \<Rightarrow> real \<Rightarrow> real list" where
  "specificVolumeValues unitSystem zoomLevel =
     (let base = specificVolumeBase unitSystem;
          s0 = new_Set base;
          s1 = (if zoomLevel > 1.8
                then addEach (\<lambda>val. toFixedNumber 3 (val + (if unitSystem = SI then 0.025 else 0.2))) base s0
                else s0);
          s2 = (if zoomLevel > 3.5
                then addEach (\<lambda>val. toFixedNumber 3 (val + (if unitSystem = SI then 0.012 else 0.1))) base s1
                else s1)
      in sortAscending s2)"

text \<open>The four families, for statements that range over all of them.\<close>

datatype family = RelativeHumidity | Enthalpy | WetBulb | SpecificVolume

fun baseLevels :: "family \<Rightarrow> UnitSystem \<Rightarrow> real list" where
  "baseLevels RelativeHumidity u = rhBase"
| "baseLevels Enthalpy u = enthalpyBase u"
| "baseLevels WetBulb u = wetBulbBase u"
| "baseLevels SpecificVolume u = specificVolumeBase u"

fun levelsOf :: "family \<Rightarrow> UnitSystem \<Rightarrow> real \<Rightarrow> real list" where
  "levelsOf RelativeHumidity u zoomLevel = relativeHumidityLevels zoomLevel"
| "levelsOf Enthalpy u zoomLevel = enthalpyValues u zoomLevel"
| "levelsOf WetBulb u zoomLevel = wetBulbValues u zoomLevel"
| "levelsOf SpecificVolume u zoomLevel = specificVolumeValues u zoomLevel"

section \<open>Coordinate transform\<close>

text \<open>Pixel and chart coordinates are finite numbers, modelled as reals.\<close>

record ChartExtents =
  ext_dryBulb :: "real \<times> real"
  ext_humidityRatio :: "real \<times> real"
  ext_enthalpy :: "real \<times> real"

definition getChartExtents :: "UnitSystem \<Rightarrow> ChartExtents" where
  "getChartExtents system =
     (if system = SI
      then \<lparr> ext_dryBulb = (-20, 60), ext_humidityRatio = (0, 0.035), ext_enthalpy = (-20, 120) \<rparr>
      else \<lparr> ext_dryBulb = (-4, 140), ext_humidityRatio = (0, 0.03), ext_enthalpy = (-10, 55) \<rparr>)"

definition humidityRatioToDisplay :: "UnitSystem \<Rightarrow> real \<Rightarrow> real" where
  "humidityRatioToDisplay system w = (if system = SI then w * 1000 else w * 7000)"

definition humidityRatioFromDisplay :: "UnitSystem \<Rightarrow> real \<Rightarrow> real" where
  "humidityRatioFromDisplay system w = (if system = SI then w / 1000 else w / 7000)"

text \<open>\<^verbatim>\<open>MARGINS = { top: 32, right: 36, bottom: 68, left: 88 }\<close>\<close>

definition innerWidth :: "real \<Rightarrow> real" where
  "innerWidth width = max (width - (88 + 36)) 40"

definition innerHeight :: "real \<Rightarrow> real" where
  "innerHeight height = max (height - (32 + 68)) 40"

definition humidityDomainDisplay :: "UnitSystem \<Rightarrow> real \<times> real" where
  "humidityDomainDisplay unitSystem =
     (humidityRatioToDisplay unitSystem (fst (ext_humidityRatio (getChartExtents unitSystem))),
      humidityRatioToDisplay unitSystem (snd (ext_humidityRatio (getChartExtents unitSystem))))"

text \<open>
  Modelled from the spec: the linear scale and the zoom transform come from the packages
  d3-scale and d3-zoom, which are not part of the repository. The spec describes the base
  scale as a linear map of the domain onto the pixel range (the Y range inverted) and the
  zoomed scale as \<open>translate + k \<times> base_scale(value)\<close>, obtained by rescaling. The
  definitions follow the packages' documented construction: a scale maps through
  \<open>normalize\<close> on its domain and \<open>interpolateNumber\<close> on its range, \<open>invert\<close> swaps the
  two, and \<open>rescaleX\<close> replaces the domain by the inverted image of the range under the
  inverse transform.
\<close>

record scaleLinear =
  sc_domain :: "real \<times> real"
  sc_range :: "real \<times> real"

definition normalize :: "real \<Rightarrow> real \<Rightarrow> real \<Rightarrow> real" where
  "normalize a b v = (if b - a \<noteq> 0 then (v - a) / (b - a) else 1 / 2)"

definition interpolateNumber :: "real \<Rightarrow> real \<Rightarrow> real \<Rightarrow> real" where
  "interpolateNumber a b t = a * (1 - t) + b * t"

definition bimap :: "real \<times> real \<Rightarrow> real \<times> real \<Rightarrow> real \<Rightarrow> real" where
  "bimap d r v =
     (if snd d < fst d then interpolateNumber (snd r) (fst r) (normalize (snd d) (fst d) v)
      else interpolateNumber (fst r) (snd r) (normalize (fst d) (snd d) v))"

definition scale_apply :: "scaleLinear \<Rightarrow> real \<Rightarrow> real" where
  "scale_apply s v = bimap (sc_domain s) (sc_range s) v"

definition scale_invert :: "scaleLinear \<Rightarrow> real \<Rightarrow> real" where
  "scale_invert s px = bimap (sc_range s) (sc_domain s) px"

record ZoomTransform =
  tk :: real
  tx :: real
  ty :: real

definition zoomIdentity :: ZoomTransform where
  "zoomIdentity = \<lparr> tk = 1, tx = 0, ty = 0 \<rparr>"

definition invertX :: "ZoomTransform \<Rightarrow> real \<Rightarrow> real" where
  "invertX t px = (px - tx t) / tk t"

definition invertY :: "ZoomTransform \<Rightarrow> real \<Rightarrow> real" where
  "invertY t py = (py - ty t) / tk t"

definition rescaleX :: "ZoomTransform \<Rightarrow> scaleLinear \<Rightarrow> scaleLinear" where
  "rescaleX t s =
     s \<lparr> sc_domain := (scale_invert s (invertX t (fst (sc_range s))),
                       scale_invert s (invertX t (snd (sc_range s)))) \<rparr>"

definition rescaleY :: "ZoomTransform \<Rightarrow> scaleLinear \<Rightarrow> scaleLinear" where
  "rescaleY t s =
     s \<lparr> sc_domain := (scale_invert s (invertY t (fst (sc_range s))),
                       scale_invert s (invertY t (snd (sc_range s)))) \<rparr>"

text \<open>The scales of the chart component.\<close>

definition xBaseScale :: "UnitSystem \<Rightarrow> real \<Rightarrow> scaleLinear" where
  "xBaseScale unitSystem width =
     \<lparr> sc_domain = ext_dryBulb (getChartExtents unitSystem), sc_range = (0, innerWidth width) \<rparr>"

definition yBaseScale :: "UnitSystem \<Rightarrow> real \<Rightarrow> scaleLinear" where
  "yBaseScale unitSystem height =
     \<lparr> sc_domain = humidityDomainDisplay unitSystem, sc_range = (innerHeight height, 0) \<rparr>"

definition xScale :: "UnitSystem \<Rightarrow> real \<Rightarrow> ZoomTransform \<Rightarrow> scaleLinear" where
  "xScale unitSystem width transform = rescaleX transform (xBaseScale unitSystem width)"

definition yScale :: "UnitSystem \<Rightarrow> real \<Rightarrow> ZoomTransform \<Rightarrow> scaleLinear" where
  "yScale unitSystem height transform = rescaleY transform (yBaseScale unitSystem height)"

text \<open>
  Forward mapping, as the curve paths and markers use it: a point (dry bulb, humidity
  ratio) goes to \<^verbatim>\<open>(xScale(dryBulb), yScale(humidityRatioToDisplay(unitSystem, humidityRatio)))\<close>.
\<close>

definition forward :: "UnitSystem \<Rightarrow> real \<Rightarrow> real \<Rightarrow> ZoomTransform \<Rightarrow> real \<times> real \<Rightarrow> real \<times> real" where
  "forward unitSystem width height transform p =
     (scale_apply (xScale unitSystem width transform) (fst p),
      scale_apply (yScale unitSystem height transform) (humidityRatioToDisplay unitSystem (snd p)))"

text \<open>
  \<^verbatim>\<open>resolvePointerPosition\<close>: the pointer position relative to the interaction rectangle
  (\<^verbatim>\<open>clientX - bounds.left\<close>, \<^verbatim>\<open>clientY - bounds.top\<close>), clamped to the rectangle, whose
  width and height are \<^verbatim>\<open>innerWidth\<close> and \<^verbatim>\<open>innerHeight\<close>.
\<close>

definition resolvePointerPosition :: "real \<Rightarrow> real \<Rightarrow> real \<times> real \<Rightarrow> real \<times> real" where
  "resolvePointerPosition width height pointer =
     (min (max (fst pointer) 0) (innerWidth width),
      min (max (snd pointer) 0) (innerHeight height))"

text \<open>
  Inverse mapping, as \<^verbatim>\<open>handlePointerUp\<close> computes it: clamp the pointer to the
  rectangle, invert both scales, clamp to the chart extents, convert the displayed
  humidity ratio back.
\<close>

definition inverse_map :: "UnitSystem \<Rightarrow> real \<Rightarrow> real \<Rightarrow> ZoomTransform \<Rightarrow> real \<times> real \<Rightarrow> real \<times> real" where
  "inverse_map unitSystem width height transform pointer =
     (let extents = getChartExtents unitSystem;
          px = resolvePointerPosition width height pointer;
          t = scale_invert (xScale unitSystem width transform) (fst px);
          humidityDisplay = scale_invert (yScale unitSystem height transform) (snd px);
          clampedDryBulb = min (max t (fst (ext_dryBulb extents))) (snd (ext_dryBulb extents));
          clampedHumidityDisplay =
            min (max humidityDisplay (fst (humidityDomainDisplay unitSystem)))
                (snd (humidityDomainDisplay unitSystem))
      in (clampedDryBulb, humidityRatioFromDisplay unitSystem clampedHumidityDisplay))"

section \<open>Pan and zoom\<close>

text \<open>
  Modelled from the spec: the gesture handling of d3-zoom is not part of the repository;
  the chart component only configures it with \<^verbatim>\<open>scaleExtent([1, 12])\<close> and with
  \<^verbatim>\<open>translateExtent\<close> and \<^verbatim>\<open>extent\<close> both equal to the inner plotting rectangle, stores
  the transform of every zoom event, and resets to the identity on double click. The
  spec: k is bounded to [1, 12] and the translation by the standard translate-extent
  clamp equal to the rectangle itself. The clamp below is that of d3-zoom: it shifts the
  transform so that the viewport's image stays inside the translate extent, centring it
  when the viewport is larger than the extent. A wheel event scales about the pointer, a
  drag keeps the grabbed point under the pointer.
\<close>

definition scaleExtent :: "real \<times> real" where
  "scaleExtent = (1, 12)"

definition translate_by :: "ZoomTransform \<Rightarrow> real \<Rightarrow> real \<Rightarrow> ZoomTransform" where
  "translate_by t dx dy = \<lparr> tk = tk t, tx = tx t + tk t * dx, ty = ty t + tk t * dy \<rparr>"

text \<open>\<^verbatim>\<open>Math.min(0, d0) || Math.max(0, d1)\<close>: the second operand when the first is zero.\<close>

definition shift1 :: "real \<Rightarrow> real \<Rightarrow> real" where
  "shift1 d0 d1 =
     (if d1 > d0 then (d0 + d1) / 2
      else if min 0 d0 \<noteq> 0 then min 0 d0 else max 0 d1)"

definition constrain :: "ZoomTransform \<Rightarrow> real \<times> real \<Rightarrow> ZoomTransform" where
  "constrain t rect =
     (let dx0 = invertX t 0 - 0;
          dx1 = invertX t (fst rect) - fst rect;
          dy0 = invertY t 0 - 0;
          dy1 = invertY t (snd rect) - snd rect
      in translate_by t (shift1 dx0 dx1) (shift1 dy0 dy1))"

definition scale_to :: "ZoomTransform \<Rightarrow> real \<Rightarrow> ZoomTransform" where
  "scale_to t k = t \<lparr> tk := max (fst scaleExtent) (min (snd scaleExtent) k) \<rparr>"

definition translate_to :: "ZoomTransform \<Rightarrow> real \<times> real \<Rightarrow> real \<times> real \<Rightarrow> ZoomTransform" where
  "translate_to t p0 p1 = t \<lparr> tx := fst p0 - fst p1 * tk t, ty := snd p0 - snd p1 * tk t \<rparr>"

datatype gesture =
    Wheel real "real \<times> real"
  | Drag "real \<times> real" "real \<times> real"
  | DoubleClick

text \<open>
  The state of the component is the stored transform. \<open>Wheel f p\<close> multiplies k by
  \<open>f\<close> about the pointer \<open>p\<close>; \<open>Drag p q\<close> moves the point grabbed at \<open>p\<close> to \<open>q\<close>;
  \<open>DoubleClick\<close> is \<^verbatim>\<open>handleDoubleClick\<close>.
\<close>

fun applyGesture :: "real \<times> real \<Rightarrow> ZoomTransform \<Rightarrow> gesture \<Rightarrow> ZoomTransform" where
  "applyGesture rect t (Wheel f p) =
     constrain (translate_to (scale_to t (tk t * f)) p (invertX t (fst p), invertY t (snd p))) rect"
| "applyGesture rect t (Drag p q) =
     constrain (translate_to t q (invertX t (fst p), invertY t (snd p))) rect"
| "applyGesture rect t DoubleClick = zoomIdentity"

definition runGestures :: "real \<Rightarrow> real \<Rightarrow> gesture list \<Rightarrow> ZoomTransform" where
  "runGestures width height gs =
     foldl (applyGesture (innerWidth width, innerHeight height)) zoomIdentity gs"

text \<open>The stored transform keeps its scale in \<open>[1, 12]\<close> and its translation inside the
  plotting rectangle \<open>rect = (width, height)\<close>.\<close>

definition withinRect :: "real \<times> real \<Rightarrow> ZoomTransform \<Rightarrow> bool" where
  "withinRect rect t \<longleftrightarrow>
     1 \<le> tk t \<and> tk t \<le> 12 \<and>
     fst rect - tk t * fst rect \<le> tx t \<and> tx t \<le> 0 \<and>
     snd rect - tk t * snd rect \<le> ty t \<and> ty t \<le> 0"

section \<open>A concrete solver\<close>

text \<open>
  A small solver on which the general statements are instantiated. It has the shape of the
  real one. The saturation humidity ratio is rejected outside \<open>[-100, 200]\<close> degrees (a NaN
  temperature passes that test) and grows with temperature below the boiling point; the vapour pressure of the toy is
  \<open>t + 100\<close>, and the quotient by \<open>pressure - vapour pressure\<close> that the real solver
  forms is infinite where the two are equal and, being negative above the boiling point,
  is replaced by the floor \<open>10\<^sup>-\<^sup>7\<close> there; a NaN pressure flows through the arithmetic
  into a NaN result. The enthalpy throws unless the humidity ratio is \<open>\<ge> 0\<close> (so on NaN
  too), relative humidity is rejected unless it is in \<open>[0, 1]\<close> (so on NaN too), a zero
  pressure gives an infinite volume, and the dry bulb of an enthalpy is its exact inverse.
\<close>

definition demoSat :: "num \<Rightarrow> num \<Rightarrow> error + num" where
  "demoSat t pressure =
     (case t of
        Fin a \<Rightarrow> if a < -100 \<or> 200 < a then Inl SolverError
                 else (case pressure of
                         NaN \<Rightarrow> Inr NaN
                       | Fin q \<Rightarrow> if q = a + 100 then Inr PInf
                                  else if q < a + 100 then Inr (Fin (1 / 10000000))
                                  else Inr (Fin ((a + 100) / 10000))
                       | _ \<Rightarrow> Inr (Fin (1 / 10000000)))
      | NaN \<Rightarrow> Inr NaN
      | _ \<Rightarrow> Inl SolverError)"

definition demoEnthalpy :: "num \<Rightarrow> num \<Rightarrow> error + num" where
  "demoEnthalpy t w =
     (if js_ge w (Fin 0) then Inr (js_add t (js_mul (Fin 2500) w)) else Inl SolverError)"

definition demoDryBulb :: "num \<Rightarrow> num \<Rightarrow> error + num" where
  "demoDryBulb h w = Inr (js_sub h (js_mul (Fin 2500) w))"

definition demoVolume :: "num \<Rightarrow> num \<Rightarrow> num \<Rightarrow> error + num" where
  "demoVolume t w pressure =
     Inr (js_div (js_mul (js_add t (Fin 273)) (js_add (Fin 1) w)) pressure)"

definition demoRelHum :: "num \<Rightarrow> num \<Rightarrow> num \<Rightarrow> error + num" where
  "demoRelHum t rh pressure =
     (if \<not> (js_ge rh (Fin 0) \<and> js_le rh (Fin 1)) then Inl SolverError
      else andThen (demoSat t pressure) (\<lambda>s. Inr (js_mul rh s)))"

definition demoWetBulb :: "num \<Rightarrow> num \<Rightarrow> num \<Rightarrow> error + num" where
  "demoWetBulb t wb pressure =
     (if js_gt wb t then Inl SolverError
      else andThen (demoSat wb pressure) (\<lambda>s.
             Inr (js_sub s (js_div (js_sub t wb) (Fin 2500)))))"

definition demoLib :: "UnitSystem \<Rightarrow> PsychroLib" where
  "demoLib system =
     \<lparr> GetHumRatioFromRelHum = demoRelHum,
       GetHumRatioFromTWetBulb = demoWetBulb,
       GetTWetBulbFromHumRatio = (\<lambda>t w p. Inr t),
       GetTDewPointFromHumRatio = (\<lambda>t w p. Inr t),
       GetMoistAirEnthalpy = demoEnthalpy,
       GetMoistAirVolume = demoVolume,
       GetMoistAirDensity = (\<lambda>t w p. Inr (js_div (Fin 1) (js_div (js_mul (js_add t (Fin 273)) (js_add (Fin 1) w)) p))),
       GetVapPresFromHumRatio = (\<lambda>w p. Inr (js_mul w p)),
       GetSatHumRatio = demoSat,
       GetRelHumFromHumRatio = (\<lambda>t w p. andThen (demoSat t p) (\<lambda>s. Inr (js_div w s))),
       GetTDryBulbFromEnthalpyAndHumRatio = demoDryBulb \<rparr>"

section \<open>Evaluation on the concrete solver\<close>

lemmas demo_defs = demoLib_def demoSat_def demoEnthalpy_def demoDryBulb_def demoVolume_def
  demoRelHum_def demoWetBulb_def andThen_def js_sub_def js_gt_def js_ge_def pushPoint_def
  withUnitSystem_def Let_def

lemma andThen_Inr: "andThen r f = Inr v \<Longrightarrow> \<exists>u. r = Inr u \<and> f u = Inr v"
  by (cases r) (auto simp: andThen_def)

lemma mapM_Some:
  "mapM f xs = Some ys \<Longrightarrow> length ys = length xs \<and> (\<forall>i<length xs. f (xs ! i) = Some (ys ! i))"
proof (induction xs arbitrary: ys)
  case Nil
  then show ?case by simp
next
  case (Cons x xs)
  from Cons.prems obtain y ys' where y: "f x = Some y" and ys': "mapM f xs = Some ys'"
    and ys: "ys = y # ys'"
    by (auto split: option.splits)
  from Cons.IH [OF ys'] have len: "length ys' = length xs"
    and nth: "\<forall>i<length xs. f (xs ! i) = Some (ys' ! i)" by simp_all
  show ?case
  proof (intro conjI allI impI)
    show "length ys = length (x # xs)" using len ys by simp
  next
    fix i assume "i < length (x # xs)"
    then show "f ((x # xs) ! i) = Some (ys ! i)"
      using y nth ys by (cases i) simp_all
  qed
qed

lemma mapM_all_Some: "(\<And>x. x \<in> set xs \<Longrightarrow> f x = Some (g x)) \<Longrightarrow> mapM f xs = Some (map g xs)"
  by (induction xs) simp_all

section \<open>Single states: the relative-humidity clamp\<close>

lemma clamp_unit_range:
  "v \<noteq> NaN \<Longrightarrow> js_le (Fin 0) (clamp v (Fin 0) (Fin 1)) \<and> js_le (clamp v (Fin 0) (Fin 1)) (Fin 1)"
  by (cases v) (auto simp: clamp_def Math_max_def Math_min_def)

lemma js_div_100_not_NaN: "v \<noteq> NaN \<Longrightarrow> js_div v (Fin 100) \<noteq> NaN"
  by (cases v) auto

lemma fraction_range:
  "in_relativeHumidity inputs \<noteq> NaN \<Longrightarrow>
   js_le (Fin 0) (relativeHumidityFraction inputs) \<and> js_le (relativeHumidityFraction inputs) (Fin 1)"
  unfolding relativeHumidityFraction_def by (rule clamp_unit_range) (rule js_div_100_not_NaN)

lemma fraction_low:
  "js_lt (in_relativeHumidity inputs) (Fin 0) \<Longrightarrow> relativeHumidityFraction inputs = Fin 0"
  unfolding relativeHumidityFraction_def
  by (cases "in_relativeHumidity inputs") (auto simp: clamp_def Math_max_def Math_min_def)

lemma fraction_high:
  "js_gt (in_relativeHumidity inputs) (Fin 100) \<Longrightarrow> relativeHumidityFraction inputs = Fin 1"
  unfolding relativeHumidityFraction_def js_gt_def
  by (cases "in_relativeHumidity inputs") (auto simp: clamp_def Math_max_def Math_min_def)

lemma percent_range:
  "js_le (Fin 0) f \<Longrightarrow> js_le f (Fin 1) \<Longrightarrow>
   js_le (Fin 0) (js_mul f (Fin 100)) \<and> js_le (js_mul f (Fin 100)) (Fin 100)"
  by (cases f) auto

lemma compute_fields:
  "computePsychrometrics lib inputs system = Some st \<Longrightarrow>
   st_relativeHumidity st = js_mul (relativeHumidityFraction inputs) (Fin 100) \<and>
   GetHumRatioFromRelHum (lib system) (in_dryBulb inputs) (relativeHumidityFraction inputs)
     (in_pressure inputs) = Inr (st_humidityRatio st)"
  unfolding computePsychrometrics_def withUnitSystem_def Let_def
  by (auto split: sum.splits dest!: andThen_Inr)

lemma compute_depends_on_fraction:
  "relativeHumidityFraction a = relativeHumidityFraction b \<Longrightarrow> in_dryBulb a = in_dryBulb b \<Longrightarrow>
   in_pressure a = in_pressure b \<Longrightarrow>
   computePsychrometrics lib a system = computePsychrometrics lib b system"
  unfolding computePsychrometrics_def by simp

lemma fraction_of_0: "relativeHumidityFraction (inputs\<lparr>in_relativeHumidity := Fin 0\<rparr>) = Fin 0"
  by (simp add: relativeHumidityFraction_def clamp_def Math_max_def Math_min_def)

lemma fraction_of_100: "relativeHumidityFraction (inputs\<lparr>in_relativeHumidity := Fin 100\<rparr>) = Fin 1"
  by (simp add: relativeHumidityFraction_def clamp_def Math_max_def Math_min_def)

lemma fraction_in_range:
  "js_le (Fin 0) (in_relativeHumidity inputs) \<Longrightarrow> js_le (in_relativeHumidity inputs) (Fin 100) \<Longrightarrow>
   relativeHumidityFraction inputs = js_div (in_relativeHumidity inputs) (Fin 100)"
  unfolding relativeHumidityFraction_def
  by (cases "in_relativeHumidity inputs") (auto simp: clamp_def Math_max_def Math_min_def)

lemma fraction_nan:
  "in_relativeHumidity inputs = NaN \<Longrightarrow> relativeHumidityFraction inputs = NaN"
  by (simp add: relativeHumidityFraction_def clamp_def Math_max_def Math_min_def)

lemma compute_throw:
  "GetHumRatioFromRelHum (lib system) (in_dryBulb inputs) (relativeHumidityFraction inputs)
     (in_pressure inputs) = Inl e \<Longrightarrow>
   computePsychrometrics lib inputs system = None"
  by (simp add: computePsychrometrics_def withUnitSystem_def Let_def andThen_def)

text \<open>
  Claim C10, as stated, at a NaN percentage: \<^verbatim>\<open>Math.min(Math.max(NaN, 0), 1)\<close> is NaN, so
  the fraction handed to the solver is NaN and not a number of \<open>[0, 1]\<close>. The solver
  rejects it and the result is null.
\<close>

theorem C10_nan_counterexample:
  "relativeHumidityFraction \<lparr>in_pressure = Fin 273, in_dryBulb = Fin 26, in_relativeHumidity = NaN\<rparr> = NaN
   \<and> \<not> js_le (Fin 0) NaN \<and> \<not> js_le NaN (Fin 1)
   \<and> GetHumRatioFromRelHum (demoLib SI) (Fin 26) NaN (Fin 273) = Inl SolverError
   \<and> computePsychrometrics demoLib
        \<lparr>in_pressure = Fin 273, in_dryBulb = Fin 26, in_relativeHumidity = NaN\<rparr> SI = None"
  by (simp add: computePsychrometrics_def relativeHumidityFraction_def clamp_def Math_max_def
        Math_min_def demo_defs)

text \<open>
  Claim C10, amended: for every input, \<^verbatim>\<open>computePsychrometrics\<close> calls the solver with
  the percentage divided by 100 and passed through \<^verbatim>\<open>clamp(., 0, 1)\<close>. That fraction is
  the percentage over 100 for a percentage in \<open>[0, 100]\<close>, 0 for one below 0 and 1 for one
  above 100, so it lies in \<open>[0, 1]\<close> for every percentage that is not NaN, and a
  percentage below 0 or above 100 gives the same result as 0 or 100; for a NaN percentage
  the fraction is NaN. The result is null when the solver throws on the fraction. A
  non-null result carries the humidity ratio the solver returned for the fraction and
  the fraction times 100 as its relative humidity, which lies in \<open>[0, 100]\<close> whenever the
  percentage is not NaN or the solver accepts only fractions of \<open>[0, 1]\<close>.
\<close>

theorem C10_relative_humidity_clamped:
  "(in_relativeHumidity inputs \<noteq> NaN \<longrightarrow>
      js_le (Fin 0) (relativeHumidityFraction inputs) \<and> js_le (relativeHumidityFraction inputs) (Fin 1))
   \<and> (js_le (Fin 0) (in_relativeHumidity inputs) \<and> js_le (in_relativeHumidity inputs) (Fin 100) \<longrightarrow>
        relativeHumidityFraction inputs = js_div (in_relativeHumidity inputs) (Fin 100))
   \<and> (js_lt (in_relativeHumidity inputs) (Fin 0) \<longrightarrow>
        relativeHumidityFraction inputs = Fin 0
        \<and> computePsychrometrics lib inputs system =
          computePsychrometrics lib (inputs\<lparr>in_relativeHumidity := Fin 0\<rparr>) system)
   \<and> (js_gt (in_relativeHumidity inputs) (Fin 100) \<longrightarrow>
        relativeHumidityFraction inputs = Fin 1
        \<and> computePsychrometrics lib inputs system =
          computePsychrometrics lib (inputs\<lparr>in_relativeHumidity := Fin 100\<rparr>) system)
   \<and> (in_relativeHumidity inputs = NaN \<longrightarrow> relativeHumidityFraction inputs = NaN)
   \<and> (\<forall>e. GetHumRatioFromRelHum (lib system) (in_dryBulb inputs) (relativeHumidityFraction inputs)
             (in_pressure inputs) = Inl e \<longrightarrow>
          computePsychrometrics lib inputs system = None)
   \<and> (\<forall>st. computePsychrometrics lib inputs system = Some st \<longrightarrow>
         GetHumRatioFromRelHum (lib system) (in_dryBulb inputs) (relativeHumidityFraction inputs)
           (in_pressure inputs) = Inr (st_humidityRatio st)
         \<and> st_relativeHumidity st = js_mul (relativeHumidityFraction inputs) (Fin 100)
         \<and> (in_relativeHumidity inputs \<noteq> NaN
              \<or> (\<forall>t f p w. GetHumRatioFromRelHum (lib system) t f p = Inr w \<longrightarrow>
                     js_le (Fin 0) f \<and> js_le f (Fin 1))
            \<longrightarrow> js_le (Fin 0) (st_relativeHumidity st) \<and> js_le (st_relativeHumidity st) (Fin 100)))"
proof (intro conjI impI allI)
  assume "in_relativeHumidity inputs \<noteq> NaN"
  from fraction_range [OF this]
  show "js_le (Fin 0) (relativeHumidityFraction inputs)"
    and "js_le (relativeHumidityFraction inputs) (Fin 1)"
    by simp_all
next
  assume "js_le (Fin 0) (in_relativeHumidity inputs) \<and> js_le (in_relativeHumidity inputs) (Fin 100)"
  then show "relativeHumidityFraction inputs = js_div (in_relativeHumidity inputs) (Fin 100)"
    by (simp add: fraction_in_range)
next
  assume "js_lt (in_relativeHumidity inputs) (Fin 0)"
  then show z: "relativeHumidityFraction inputs = Fin 0" by (rule fraction_low)
  then show "computePsychrometrics lib inputs system =
      computePsychrometrics lib (inputs\<lparr>in_relativeHumidity := Fin 0\<rparr>) system"
    by (intro compute_depends_on_fraction) (simp_all add: fraction_of_0)
next
  assume "js_gt (in_relativeHumidity inputs) (Fin 100)"
  then show "relativeHumidityFraction inputs = Fin 1" by (rule fraction_high)
  then show "computePsychrometrics lib inputs system =
      computePsychrometrics lib (inputs\<lparr>in_relativeHumidity := Fin 100\<rparr>) system"
    by (intro compute_depends_on_fraction) (simp_all add: fraction_of_100)
next
  assume "in_relativeHumidity inputs = NaN"
  then show "relativeHumidityFraction inputs = NaN" by (rule fraction_nan)
next
  fix e
  assume "GetHumRatioFromRelHum (lib system) (in_dryBulb inputs) (relativeHumidityFraction inputs)
           (in_pressure inputs) = Inl e"
  then show "computePsychrometrics lib inputs system = None" by (rule compute_throw)
next
  fix st assume st: "computePsychrometrics lib inputs system = Some st"
  from compute_fields [OF st]
  show call: "GetHumRatioFromRelHum (lib system) (in_dryBulb inputs) (relativeHumidityFraction inputs)
          (in_pressure inputs) = Inr (st_humidityRatio st)"
    and rh: "st_relativeHumidity st = js_mul (relativeHumidityFraction inputs) (Fin 100)"
    by simp_all
  assume "in_relativeHumidity inputs \<noteq> NaN
      \<or> (\<forall>t f p w. GetHumRatioFromRelHum (lib system) t f p = Inr w \<longrightarrow>
             js_le (Fin 0) f \<and> js_le f (Fin 1))"
  then have "js_le (Fin 0) (relativeHumidityFraction inputs) \<and> js_le (relativeHumidityFraction inputs) (Fin 1)"
    using fraction_range call by blast
  with percent_range rh
  show "js_le (Fin 0) (st_relativeHumidity st)" and "js_le (st_relativeHumidity st) (Fin 100)"
    by simp_all
qed

lemma demo_compute_150:
  "computePsychrometrics demoLib \<lparr>in_pressure = Fin 273, in_dryBulb = Fin 26, in_relativeHumidity = Fin 150\<rparr> SI
   = Some \<lparr>st_dryBulb = Fin 26, st_wetBulb = Fin 26, st_dewPoint = Fin 26,
       st_relativeHumidity = Fin 100, st_humidityRatio = Fin (63 / 5000),
       st_enthalpy = Fin (115 / 2), st_specificVolume = Fin (116449 / 105000),
       st_density = Fin (105000 / 116449), st_vaporPressure = Fin (17199 / 5000),
       st_saturationHumidityRatio = Fin (63 / 5000)\<rparr>"
  by (simp add: computePsychrometrics_def relativeHumidityFraction_def clamp_def Math_max_def
        Math_min_def demo_defs)

lemma demo_compute_40:
  "map_option st_relativeHumidity
     (computePsychrometrics demoLib
        \<lparr>in_pressure = Fin 273, in_dryBulb = Fin 26, in_relativeHumidity = Fin 40\<rparr> SI) = Some (Fin 40)"
  by (simp add: computePsychrometrics_def relativeHumidityFraction_def clamp_def Math_max_def
        Math_min_def demo_defs)

lemma demo_solver_accepts_unit_interval_only:
  "\<forall>t f p w. GetHumRatioFromRelHum (demoLib SI) t f p = Inr w \<longrightarrow> js_le (Fin 0) f \<and> js_le f (Fin 1)"
  by (auto simp: demoLib_def demoRelHum_def js_ge_def split: if_splits)

theorem C10_relative_humidity_clamped_witness:
  "js_gt (Fin 150) (Fin 100)
   \<and> relativeHumidityFraction
        \<lparr>in_pressure = Fin 273, in_dryBulb = Fin 26, in_relativeHumidity = Fin 150\<rparr> = Fin 1
   \<and> computePsychrometrics demoLib
        \<lparr>in_pressure = Fin 273, in_dryBulb = Fin 26, in_relativeHumidity = Fin 150\<rparr> SI =
      computePsychrometrics demoLib
        \<lparr>in_pressure = Fin 273, in_dryBulb = Fin 26, in_relativeHumidity = Fin 100\<rparr> SI
   \<and> map_option st_relativeHumidity
        (computePsychrometrics demoLib
          \<lparr>in_pressure = Fin 273, in_dryBulb = Fin 26, in_relativeHumidity = Fin 150\<rparr> SI) = Some (Fin 100)
   \<and> GetHumRatioFromRelHum (demoLib SI) (Fin 26) (Fin 1) (Fin 273) = Inr (Fin (63 / 5000))
   \<and> js_lt (Fin (- 5)) (Fin 0)
   \<and> relativeHumidityFraction
        \<lparr>in_pressure = Fin 273, in_dryBulb = Fin 26, in_relativeHumidity = Fin (- 5)\<rparr> = Fin 0
   \<and> computePsychrometrics demoLib
        \<lparr>in_pressure = Fin 273, in_dryBulb = Fin 26, in_relativeHumidity = Fin (- 5)\<rparr> SI =
      computePsychrometrics demoLib
        \<lparr>in_pressure = Fin 273, in_dryBulb = Fin 26, in_relativeHumidity = Fin 0\<rparr> SI
   \<and> js_le (Fin 0) (Fin 40) \<and> js_le (Fin 40) (Fin 100)
   \<and> relativeHumidityFraction
        \<lparr>in_pressure = Fin 273, in_dryBulb = Fin 26, in_relativeHumidity = Fin 40\<rparr> = Fin (2 / 5)
   \<and> map_option st_relativeHumidity
        (computePsychrometrics demoLib
          \<lparr>in_pressure = Fin 273, in_dryBulb = Fin 26, in_relativeHumidity = Fin 40\<rparr> SI) = Some (Fin 40)
   \<and> relativeHumidityFraction
        \<lparr>in_pressure = Fin 273, in_dryBulb = Fin 26, in_relativeHumidity = NaN\<rparr> = NaN
   \<and> GetHumRatioFromRelHum (demoLib SI) (Fin 26) NaN (Fin 273) = Inl SolverError
   \<and> computePsychrometrics demoLib
        \<lparr>in_pressure = Fin 273, in_dryBulb = Fin 26, in_relativeHumidity = NaN\<rparr> SI = None"
proof -
  let ?hi = "\<lparr>in_pressure = Fin 273, in_dryBulb = Fin 26, in_relativeHumidity = Fin 150\<rparr>"
  let ?lo = "\<lparr>in_pressure = Fin 273, in_dryBulb = Fin 26, in_relativeHumidity = Fin (- 5)\<rparr>"
  let ?mid = "\<lparr>in_pressure = Fin 273, in_dryBulb = Fin 26, in_relativeHumidity = Fin 40\<rparr>"
  let ?nan = "\<lparr>in_pressure = Fin 273, in_dryBulb = Fin 26, in_relativeHumidity = NaN\<rparr>"
  have gt: "js_gt (Fin 150) (Fin 100)" by (simp add: js_gt_def)
  from C10_relative_humidity_clamped [of ?hi demoLib SI] gt
  have hi: "relativeHumidityFraction ?hi = Fin 1"
    and eq: "computePsychrometrics demoLib ?hi SI =
      computePsychrometrics demoLib (?hi\<lparr>in_relativeHumidity := Fin 100\<rparr>) SI"
    by simp_all
  have hi_st: "map_option st_relativeHumidity (computePsychrometrics demoLib ?hi SI) = Some (Fin 100)"
    by (simp add: demo_compute_150)
  from C10_relative_humidity_clamped [of ?hi demoLib SI] hi
  have hi_call: "GetHumRatioFromRelHum (demoLib SI) (Fin 26) (Fin 1) (Fin 273) = Inr (Fin (63 / 5000))"
    by (simp add: demo_compute_150)
  have lt: "js_lt (Fin (- 5)) (Fin 0)" by simp
  from C10_relative_humidity_clamped [of ?lo demoLib SI] lt
  have lo: "relativeHumidityFraction ?lo = Fin 0"
    and eq_lo: "computePsychrometrics demoLib ?lo SI =
      computePsychrometrics demoLib (?lo\<lparr>in_relativeHumidity := Fin 0\<rparr>) SI"
    by simp_all
  have in_range: "js_le (Fin 0) (Fin 40)" "js_le (Fin 40) (Fin 100)" by simp_all
  from C10_relative_humidity_clamped [of ?mid demoLib SI] in_range
  have mid: "relativeHumidityFraction ?mid = Fin (2 / 5)" by simp
  from C10_relative_humidity_clamped [of ?nan demoLib SI]
  have nan: "relativeHumidityFraction ?nan = NaN" by simp
  have thrown: "GetHumRatioFromRelHum (demoLib SI) (Fin 26) NaN (Fin 273) = Inl SolverError"
    by (simp add: demo_defs)
  from C10_relative_humidity_clamped [of ?nan demoLib SI] nan thrown
  have none: "computePsychrometrics demoLib ?nan SI = None" by simp
  from gt hi eq hi_st hi_call lt lo eq_lo in_range mid demo_compute_40 nan thrown none
  show ?thesis by simp
qed

section \<open>Invalid target levels\<close>

lemma wetBulbCurve_invalid:
  "\<not> isFinite target \<Longrightarrow>
   wetBulbCurve psy pressure dryBulbRange step target = Some \<lparr>level = target, points = []\<rparr>"
  by (simp add: wetBulbCurve_def)

lemma specificVolumeCurve_invalid:
  "\<not> isFinite target \<or> js_le target (Fin 0) \<Longrightarrow>
   specificVolumeCurve psy pressure dryBulbRange step tolerance target =
   Some \<lparr>level = target, points = []\<rparr>"
  by (simp add: specificVolumeCurve_def)

text \<open>
  Claim C4, as stated, at a wet-bulb target that is finite and not positive: the target 0
  (one of the chart's own SI levels) is sampled like any other and its curve has points.
\<close>

theorem C4_wet_bulb_zero_counterexample:
  "isFinite (Fin 0) \<and> js_le (Fin 0) (Fin 0)
   \<and> generateWetBulbLines demoLib SI (Fin 273) (Fin (-20), Fin 1) [Fin 0] (Fin 1) =
     Some [\<lparr>level = Fin 0,
             points = [\<lparr>dryBulb = Fin 0, humidityRatio = Fin (1 / 100), enthalpy = Fin 25\<rparr>,
                       \<lparr>dryBulb = Fin 1, humidityRatio = Fin (6 / 625), enthalpy = Fin 25\<rparr>]\<rparr>]"
  by (simp add: generateWetBulbLines_def wetBulbCurve_def wetBulbBody_def Math_max_def
        for_le.simps demo_defs)

text \<open>
  Claim C4, amended: \<^verbatim>\<open>generateWetBulbLines\<close> returns the empty curve for every target
  that is not finite (NaN in particular), and \<^verbatim>\<open>generateSpecificVolumeLines\<close> for every
  target that is not finite or not positive. The curve is returned whatever the solver,
  the pressure, the domain and the step are: no sample is taken and the solver is not
  consulted (the result does not depend on it, and it is returned even for a step with
  which the sampling loop would never end). When the whole operation returns, the curve
  at the position of such a target is the empty one.
\<close>

theorem C4_invalid_target_empty_curve:
  "(\<not> isFinite target \<longrightarrow>
      wetBulbCurve psy pressure dryBulbRange step target = Some \<lparr>level = target, points = []\<rparr>)
   \<and> (\<not> isFinite target \<or> js_le target (Fin 0) \<longrightarrow>
      specificVolumeCurve psy pressure dryBulbRange step tolerance target =
      Some \<lparr>level = target, points = []\<rparr>)
   \<and> (\<forall>cs i. generateWetBulbLines lib system pressure dryBulbRange targets step = Some cs
        \<and> i < length targets \<and> \<not> isFinite (targets ! i)
        \<longrightarrow> cs ! i = \<lparr>level = targets ! i, points = []\<rparr>)
   \<and> (\<forall>cs i. generateSpecificVolumeLines lib system pressure dryBulbRange targets step tolerance = Some cs
        \<and> i < length targets \<and> (\<not> isFinite (targets ! i) \<or> js_le (targets ! i) (Fin 0))
        \<longrightarrow> cs ! i = \<lparr>level = targets ! i, points = []\<rparr>)"
proof (intro conjI impI allI)
  assume "\<not> isFinite target"
  then show "wetBulbCurve psy pressure dryBulbRange step target = Some \<lparr>level = target, points = []\<rparr>"
    by (rule wetBulbCurve_invalid)
next
  assume "\<not> isFinite target \<or> js_le target (Fin 0)"
  then show "specificVolumeCurve psy pressure dryBulbRange step tolerance target =
      Some \<lparr>level = target, points = []\<rparr>"
    by (rule specificVolumeCurve_invalid)
next
  fix cs i
  assume a: "generateWetBulbLines lib system pressure dryBulbRange targets step = Some cs
      \<and> i < length targets \<and> \<not> isFinite (targets ! i)"
  then have "mapM (wetBulbCurve (lib system) pressure dryBulbRange step) targets = Some cs"
    by (simp add: generateWetBulbLines_def withUnitSystem_def)
  from mapM_Some [OF this] a
  have "wetBulbCurve (lib system) pressure dryBulbRange step (targets ! i) = Some (cs ! i)"
    by simp
  with a show "cs ! i = \<lparr>level = targets ! i, points = []\<rparr>"
    by (simp add: wetBulbCurve_invalid)
next
  fix cs i
  assume a: "generateSpecificVolumeLines lib system pressure dryBulbRange targets step tolerance = Some cs
      \<and> i < length targets \<and> (\<not> isFinite (targets ! i) \<or> js_le (targets ! i) (Fin 0))"
  then have "mapM (specificVolumeCurve (lib system) pressure dryBulbRange step tolerance) targets = Some cs"
    by (simp add: generateSpecificVolumeLines_def withUnitSystem_def)
  from mapM_Some [OF this] a
  have "specificVolumeCurve (lib system) pressure dryBulbRange step tolerance (targets ! i) = Some (cs ! i)"
    by simp
  moreover from a
  have "specificVolumeCurve (lib system) pressure dryBulbRange step tolerance (targets ! i) =
      Some \<lparr>level = targets ! i, points = []\<rparr>"
    by (intro specificVolumeCurve_invalid) simp
  ultimately show "cs ! i = \<lparr>level = targets ! i, points = []\<rparr>"
    by simp
qed

lemma demo_wet_bulb_mixed:
  "generateWetBulbLines demoLib SI (Fin 273) (Fin 0, Fin 0) [Fin 0, NaN] (Fin 1) =
   Some [\<lparr>level = Fin 0,
           points = [\<lparr>dryBulb = Fin 0, humidityRatio = Fin (1 / 100), enthalpy = Fin 25\<rparr>]\<rparr>,
         \<lparr>level = NaN, points = []\<rparr>]"
  by (simp add: generateWetBulbLines_def wetBulbCurve_def wetBulbBody_def Math_max_def
        for_le.simps demo_defs)

theorem C4_invalid_target_empty_curve_witness:
  "\<not> isFinite NaN
   \<and> wetBulbCurve (demoLib SI) (Fin 273) (Fin 0, Fin 0) (Fin 0) NaN = Some \<lparr>level = NaN, points = []\<rparr>
   \<and> js_le (Fin (-1)) (Fin 0)
   \<and> specificVolumeCurve (demoLib SI) (Fin 273) (Fin 0, Fin 0) (Fin 0) defaultTolerance (Fin (-1)) =
       Some \<lparr>level = Fin (-1), points = []\<rparr>
   \<and> map_option (\<lambda>cs. cs ! 1)
        (generateWetBulbLines demoLib SI (Fin 273) (Fin 0, Fin 0) [Fin 0, NaN] (Fin 1)) =
       Some \<lparr>level = NaN, points = []\<rparr>"
proof -
  have n: "\<not> isFinite NaN" by simp
  have l: "js_le (Fin (-1)) (Fin 0)" by simp
  note c4 = C4_invalid_target_empty_curve
  from c4 [of NaN "demoLib SI" "Fin 273" "(Fin 0, Fin 0)" "Fin 0"] n
  have w: "wetBulbCurve (demoLib SI) (Fin 273) (Fin 0, Fin 0) (Fin 0) NaN =
      Some \<lparr>level = NaN, points = []\<rparr>"
    by blast
  from c4 [of "Fin (-1)" "demoLib SI" "Fin 273" "(Fin 0, Fin 0)" "Fin 0" defaultTolerance] l
  have v: "specificVolumeCurve (demoLib SI) (Fin 273) (Fin 0, Fin 0) (Fin 0) defaultTolerance (Fin (-1)) =
      Some \<lparr>level = Fin (-1), points = []\<rparr>"
    by blast
  have "map_option (\<lambda>cs. cs ! 1)
        (generateWetBulbLines demoLib SI (Fin 273) (Fin 0, Fin 0) [Fin 0, NaN] (Fin 1)) =
       Some \<lparr>level = NaN, points = []\<rparr>"
    by (simp add: demo_wet_bulb_mixed)
  with n l w v show ?thesis by simp
qed

section \<open>Non-finite solver results in the saturation and relative-humidity generators\<close>

text \<open>
  Claim C1 at a solver result that is infinite without a throw. \<^verbatim>\<open>generateSaturationCurve\<close>
  (like \<^verbatim>\<open>generateRelativeHumidityCurves\<close>) only catches exceptions; it has no
  \<^verbatim>\<open>Number.isFinite\<close> test such as \<^verbatim>\<open>generateWetBulbLines\<close> has. When the pressure
  equals the saturation vapour pressure at a sample, the saturation humidity ratio there
  is infinite, the enthalpy of an infinite humidity ratio is computed without a throw,
  and the sample is pushed with an infinite humidity ratio. On the same input the
  wet-bulb generator drops every sample whose humidity ratio is not finite.
\<close>

theorem C1_infinite_humidity_ratio_kept:
  "GetSatHumRatio (demoLib SI) (Fin 0) (Fin 100) = Inr PInf
   \<and> GetMoistAirEnthalpy (demoLib SI) (Fin 0) PInf = Inr PInf
   \<and> \<not> isFinite PInf
   \<and> generateSaturationCurve demoLib SI (Fin 100) (Fin 0, Fin 1) (Fin (1 / 2)) =
     Some [\<lparr>dryBulb = Fin 0, humidityRatio = PInf, enthalpy = PInf\<rparr>,
           \<lparr>dryBulb = Fin (1 / 2), humidityRatio = Fin (1 / 10000000), enthalpy = Fin (2001 / 4000)\<rparr>,
           \<lparr>dryBulb = Fin 1, humidityRatio = Fin (1 / 10000000), enthalpy = Fin (4001 / 4000)\<rparr>]
   \<and> generateWetBulbLines demoLib SI (Fin 100) (Fin 0, Fin 1) [Fin 0] (Fin (1 / 2)) =
     Some [\<lparr>level = Fin 0, points = []\<rparr>]"
  by (simp add: generateSaturationCurve_def saturationBody_def
        generateWetBulbLines_def wetBulbCurve_def wetBulbBody_def Math_max_def
        for_le.simps demo_defs)

section \<open>The specific-volume search\<close>

text \<open>
  The bisection keeps \<open>0 \<le> low < high \<le> satHum\<close>, and the estimate it leaves, whether by
  convergence, by \<^verbatim>\<open>break\<close> or by the iteration bound, lies in \<open>(0, satHum]\<close>.
\<close>

lemma bisect_in_bracket:
  "bisect psy t pressure targetVolume tolerance i (Fin l) (Fin h) (Fin x) = Inr w \<Longrightarrow>
   0 \<le> l \<Longrightarrow> l < h \<Longrightarrow> h \<le> s \<Longrightarrow> 0 < x \<Longrightarrow> x \<le> s \<Longrightarrow>
   \<exists>y. w = Fin y \<and> 0 < y \<and> y \<le> s"
proof (induction psy t pressure targetVolume tolerance i "Fin l" "Fin h" "Fin x"
    arbitrary: l h x rule: bisect.induct)
  case (1 psy t pressure targetVolume tolerance i)
  let ?m = "(l + h) / 2"
  have mid: "js_div (js_add (Fin l) (Fin h)) (Fin 2) = Fin ?m" by simp
  have m: "0 < ?m" "?m < h" "l < ?m" "?m \<le> s" using "1.prems" by auto
  show ?case
  proof (cases "i < 25")
    case False
    with "1.prems" show ?thesis by (subst (asm) bisect.simps) auto
  next
    case True
    note i = this
    from "1.prems"(1) i obtain volume where
      vol: "GetMoistAirVolume psy t (Fin ?m) pressure = Inr volume"
      by (subst (asm) bisect.simps) (auto simp: mid split: sum.splits)
    then have vol': "GetMoistAirVolume psy t (js_div (js_add (Fin l) (Fin h)) (Fin 2)) pressure = Inr volume"
      by (simp only: mid)
    show ?thesis
    proof (cases "isFinite volume")
      case False
      with "1.prems" i vol show ?thesis
        by (subst (asm) bisect.simps) (auto simp: mid)
    next
      case True
      note fin = this
      show ?thesis
      proof (cases "js_le (js_abs (js_sub volume targetVolume)) tolerance")
        case True
        with "1.prems"(1) i vol fin have "w = Fin ?m"
          by (subst (asm) bisect.simps) (simp add: mid)
        with m show ?thesis by blast
      next
        case False
        note far = this
        show ?thesis
        proof (cases "js_gt volume targetVolume")
          case True
          with "1.prems"(1) i vol fin far
          have "bisect psy t pressure targetVolume tolerance (i + 1) (Fin l) (Fin ?m) (Fin ?m) = Inr w"
            by (subst (asm) bisect.simps) (simp add: mid)
          moreover have "\<not> \<not> isFinite volume" using fin by simp
          ultimately show ?thesis
            using "1.hyps"(1) [OF i vol' _ far True mid mid] "1.prems"(2) m by simp
        next
          case False
          with "1.prems"(1) i vol fin far
          have "bisect psy t pressure targetVolume tolerance (i + 1) (Fin ?m) (Fin h) (Fin ?m) = Inr w"
            by (subst (asm) bisect.simps) (simp add: mid)
          moreover have "\<not> \<not> isFinite volume" using fin by simp
          ultimately show ?thesis
            using "1.hyps"(2) [OF i vol' _ far False mid mid] "1.prems"(4) m by simp
        qed
      qed
    qed
  qed
qed

text \<open>
  Hence the test \<^verbatim>\<open>humidityRatio > 0 && humidityRatio <= satHum\<close> after the loop never
  rejects: a sample whose solver calls do not throw always pushes a point.
\<close>

lemma specificVolumeBody_emits:
  assumes sat: "GetSatHumRatio psy t pressure = Inr (Fin s)" and s: "0 < s"
    and b: "bisect psy t pressure targetVolume tolerance 0 (Fin 0) (Fin s) (Fin s) = Inr w"
    and h: "GetMoistAirEnthalpy psy t w = Inr e"
  shows "specificVolumeBody psy pressure targetVolume tolerance t ps = pushPoint ps t w e"
proof -
  from bisect_in_bracket [OF b, of s] s obtain y where "w = Fin y" "0 < y" "y \<le> s"
    by auto
  with sat s b h show ?thesis
    by (simp add: specificVolumeBody_def js_gt_def)
qed

text \<open>
  Claim C2 at a target volume that no humidity ratio in the bracket reaches: the volume
  of the concrete solver at 0 degrees and pressure 273 is \<open>1 + w\<close>, below the target 2
  on all of \<open>[0, 1/100]\<close>. After 25 halvings towards the upper end the last midpoint is
  pushed, and the solver's volume there is more than the tolerance away from the target.
\<close>

theorem C2_unconverged_estimate_kept:
  "generateSpecificVolumeLines demoLib SI (Fin 273) (Fin 0, Fin 0) [Fin 2] (Fin 1) defaultTolerance =
     Some [\<lparr>level = Fin 2,
             points = [\<lparr>dryBulb = Fin 0, humidityRatio = Fin (33554431 / 3355443200),
                        enthalpy = Fin (838860775 / 33554432)\<rparr>]\<rparr>]
   \<and> GetMoistAirVolume (demoLib SI) (Fin 0) (Fin (33554431 / 3355443200)) (Fin 273) =
       Inr (Fin (3388997631 / 3355443200))
   \<and> \<not> js_le (js_abs (js_sub (Fin (3388997631 / 3355443200)) (Fin 2))) defaultTolerance"
  by (simp add: generateSpecificVolumeLines_def specificVolumeCurve_def specificVolumeBody_def
        defaultTolerance_def for_le.simps bisect.simps demo_defs)

text \<open>
  Claim C3 at a solver volume that is not finite: with pressure 0 the volume at the first
  midpoint is infinite, the search is left by \<^verbatim>\<open>break\<close> with \<^verbatim>\<open>humidityRatio\<close> still
  equal to the saturation value, and that point is pushed.
\<close>

theorem C3_aborted_search_point_kept:
  "GetSatHumRatio (demoLib SI) (Fin 0) (Fin 0) = Inr (Fin (1 / 10000000))
   \<and> GetMoistAirVolume (demoLib SI) (Fin 0) (Fin (1 / 20000000)) (Fin 0) = Inr PInf
   \<and> generateSpecificVolumeLines demoLib SI (Fin 0) (Fin 0, Fin 0) [Fin (201 / 200)] (Fin 1)
        defaultTolerance =
     Some [\<lparr>level = Fin (201 / 200),
             points = [\<lparr>dryBulb = Fin 0, humidityRatio = Fin (1 / 10000000),
                        enthalpy = Fin (1 / 4000)\<rparr>]\<rparr>]"
  by (simp add: generateSpecificVolumeLines_def specificVolumeCurve_def specificVolumeBody_def
        defaultTolerance_def for_le.simps bisect.simps demo_defs)

section \<open>Level of detail is monotone in the zoom factor\<close>

text \<open>
  The theorems of this section use only that every loop and every \<^verbatim>\<open>forEach\<close> adds to
  the set and that the guards \<open>zoomLevel > c\<close> are upward closed; they do not depend on
  which values the loops add. (With IEEE doubles the accumulated loop variable of the first
  relative-humidity loop ends at 0.9499999999999998, so that loop also adds 0.95.)
\<close>

lemma set_set_add: "set (set_add v s) = insert v (set s)"
  by (auto simp: set_add_def)

lemma distinct_set_add: "distinct s \<Longrightarrow> distinct (set_add v s)"
  by (simp add: set_add_def)

lemma set_addEach: "set (addEach f base s) = set s \<union> f ` set base"
  unfolding addEach_def by (induction base arbitrary: s) (auto simp: set_set_add)

lemma distinct_addEach: "distinct s \<Longrightarrow> distinct (addEach f base s)"
  unfolding addEach_def by (induction base arbitrary: s) (simp_all add: distinct_set_add)

lemma set_new_Set: "set (new_Set xs) = set xs"
  using set_addEach [of "\<lambda>v. v" xs "[]"] by (simp add: new_Set_def addEach_def)

lemma distinct_new_Set: "distinct (new_Set xs)"
  using distinct_addEach [of "[]" "\<lambda>v. v" xs] by (simp add: new_Set_def addEach_def)

lemma rhLoop1_keeps: "x \<in> set s \<Longrightarrow> x \<in> set (rhLoop1 v s)"
  by (induction v s rule: rhLoop1.induct) (subst rhLoop1.simps, simp add: set_set_add)

lemma rhLoop2_keeps: "x \<in> set s \<Longrightarrow> x \<in> set (rhLoop2 v s)"
  by (induction v s rule: rhLoop2.induct) (subst rhLoop2.simps, simp add: set_set_add)

lemma rhLoop3_keeps: "x \<in> set s \<Longrightarrow> x \<in> set (rhLoop3 v s)"
  by (induction v s rule: rhLoop3.induct) (subst rhLoop3.simps, simp add: set_set_add)

lemma rhLoop1_distinct: "distinct s \<Longrightarrow> distinct (rhLoop1 v s)"
  by (induction v s rule: rhLoop1.induct) (subst rhLoop1.simps, simp add: distinct_set_add)

lemma rhLoop2_distinct: "distinct s \<Longrightarrow> distinct (rhLoop2 v s)"
  by (induction v s rule: rhLoop2.induct) (subst rhLoop2.simps, simp add: distinct_set_add)

lemma rhLoop3_distinct: "distinct s \<Longrightarrow> distinct (rhLoop3 v s)"
  by (induction v s rule: rhLoop3.induct) (subst rhLoop3.simps, simp add: distinct_set_add)

lemma strict_sortAscending: "distinct s \<Longrightarrow> sorted_wrt (<) (sortAscending s)"
  by (simp add: sortAscending_def strict_sorted_iff)

lemma rh_mono: "k1 \<le> k2 \<Longrightarrow> set (relativeHumidityLevels k1) \<subseteq> set (relativeHumidityLevels k2)"
  by (auto simp: relativeHumidityLevels_def sortAscending_def Let_def
        intro!: rhLoop1_keeps rhLoop2_keeps rhLoop3_keeps)

lemma rh_base: "set rhBase \<subseteq> set (relativeHumidityLevels k)"
  by (auto simp: relativeHumidityLevels_def sortAscending_def Let_def set_new_Set
        intro!: rhLoop1_keeps rhLoop2_keeps rhLoop3_keeps)

lemma rh_sorted: "sorted_wrt (<) (relativeHumidityLevels k)"
  unfolding relativeHumidityLevels_def Let_def
  by (intro strict_sortAscending) (simp add: rhLoop1_distinct rhLoop2_distinct rhLoop3_distinct distinct_new_Set)

lemma enthalpy_mono: "k1 \<le> k2 \<Longrightarrow> set (enthalpyValues u k1) \<subseteq> set (enthalpyValues u k2)"
  by (auto simp: enthalpyValues_def sortAscending_def Let_def set_addEach)

lemma enthalpy_base: "set (enthalpyBase u) \<subseteq> set (enthalpyValues u k)"
  by (auto simp: enthalpyValues_def sortAscending_def Let_def set_addEach set_new_Set)

lemma enthalpy_sorted: "sorted_wrt (<) (enthalpyValues u k)"
  unfolding enthalpyValues_def Let_def
  by (intro strict_sortAscending) (simp add: distinct_addEach distinct_new_Set)

lemma wetBulb_mono: "k1 \<le> k2 \<Longrightarrow> set (wetBulbValues u k1) \<subseteq> set (wetBulbValues u k2)"
  by (auto simp: wetBulbValues_def sortAscending_def Let_def set_addEach)

lemma wetBulb_base: "set (wetBulbBase u) \<subseteq> set (wetBulbValues u k)"
  by (auto simp: wetBulbValues_def sortAscending_def Let_def set_addEach set_new_Set)

lemma wetBulb_sorted: "sorted_wrt (<) (wetBulbValues u k)"
  unfolding wetBulbValues_def Let_def
  by (intro strict_sortAscending) (simp add: distinct_addEach distinct_new_Set)

lemma specificVolume_mono: "k1 \<le> k2 \<Longrightarrow> set (specificVolumeValues u k1) \<subseteq> set (specificVolumeValues u k2)"
  by (auto simp: specificVolumeValues_def sortAscending_def Let_def set_addEach)

lemma specificVolume_base: "set (specificVolumeBase u) \<subseteq> set (specificVolumeValues u k)"
  by (auto simp: specificVolumeValues_def sortAscending_def Let_def set_addEach set_new_Set)

lemma specificVolume_sorted: "sorted_wrt (<) (specificVolumeValues u k)"
  unfolding specificVolumeValues_def Let_def
  by (intro strict_sortAscending) (simp add: distinct_addEach distinct_new_Set)

text \<open>
  Claim C6: for every curve family and unit system, the levels selected at a zoom factor
  \<open>k1\<close> are among those selected at any larger factor \<open>k2\<close>; the base list of the family
  is always included; and the returned list is strictly ascending, hence sorted and free
  of duplicates. The list is a function of the family, the unit system and the zoom factor
  alone.
\<close>

theorem C6_levels_monotone_in_zoom:
  "(k1 < k2 \<longrightarrow> set (levelsOf fam u k1) \<subseteq> set (levelsOf fam u k2))
   \<and> set (baseLevels fam u) \<subseteq> set (levelsOf fam u k)
   \<and> sorted_wrt (<) (levelsOf fam u k)
   \<and> distinct (levelsOf fam u k)"
proof (intro conjI impI)
  assume "k1 < k2"
  then have "k1 \<le> k2" by simp
  then show "set (levelsOf fam u k1) \<subseteq> set (levelsOf fam u k2)"
    by (cases fam) (simp_all add: rh_mono enthalpy_mono wetBulb_mono specificVolume_mono)
next
  show "set (baseLevels fam u) \<subseteq> set (levelsOf fam u k)"
    by (cases fam) (simp_all add: rh_base enthalpy_base wetBulb_base specificVolume_base)
next
  show s: "sorted_wrt (<) (levelsOf fam u k)"
    by (cases fam) (simp_all add: rh_sorted enthalpy_sorted wetBulb_sorted specificVolume_sorted)
  then show "distinct (levelsOf fam u k)"
    by (simp add: strict_sorted_iff)
qed

lemma enthalpy_levels_ip_1: "levelsOf Enthalpy IP 1 = [0, 10, 20, 30, 40, 50]"
  by (simp add: enthalpyValues_def enthalpyBase_def new_Set_def set_add_def sortAscending_def
        addEach_def)

lemma enthalpy_levels_ip_2:
  "levelsOf Enthalpy IP 2 = [0, 5, 10, 15, 20, 25, 30, 35, 40, 45, 50, 55]"
  by (simp add: enthalpyValues_def enthalpyBase_def new_Set_def set_add_def sortAscending_def
        addEach_def)

lemma relative_humidity_levels_2:
  "levelsOf RelativeHumidity SI 2 =
   [0.05, 0.1, 0.15, 0.2, 0.25, 0.3, 0.35, 0.4, 0.45, 0.5, 0.55, 0.6, 0.65, 0.7, 0.75, 0.8,
    0.85, 0.9, 0.98]"
  by (simp add: relativeHumidityLevels_def rhBase_def new_Set_def set_add_def sortAscending_def
        rhLoop1.simps toFixedNumber_def)

theorem C6_levels_monotone_in_zoom_witness:
  "(1 :: real) < 2
   \<and> levelsOf Enthalpy IP 1 = [0, 10, 20, 30, 40, 50]
   \<and> levelsOf Enthalpy IP 2 = [0, 5, 10, 15, 20, 25, 30, 35, 40, 45, 50, 55]
   \<and> set (levelsOf Enthalpy IP 1) \<subseteq> set (levelsOf Enthalpy IP 2)
   \<and> set (baseLevels Enthalpy IP) \<subseteq> set (levelsOf Enthalpy IP 2)
   \<and> sorted_wrt (<) (levelsOf Enthalpy IP 2)"
proof -
  have lt: "(1 :: real) < 2" by simp
  from C6_levels_monotone_in_zoom [of 1 2 Enthalpy IP 2] lt
  have "set (levelsOf Enthalpy IP 1) \<subseteq> set (levelsOf Enthalpy IP 2)"
    and "set (baseLevels Enthalpy IP) \<subseteq> set (levelsOf Enthalpy IP 2)"
    and "sorted_wrt (<) (levelsOf Enthalpy IP 2)"
    by blast+
  with lt enthalpy_levels_ip_1 enthalpy_levels_ip_2 show ?thesis by blast
qed

section \<open>The inverse mapping inverts the forward mapping\<close>

lemma bimap_affine:
  assumes d: "fst d \<noteq> snd d"
  shows "bimap d r v = fst r + (v - fst d) / (snd d - fst d) * (snd r - fst r)"
proof -
  define u where "u = (v - fst d) / (snd d - fst d)"
  have flip: "(v - snd d) / (fst d - snd d) = 1 - u"
  proof -
    have "(v - snd d) / (fst d - snd d) = (snd d - v) / (snd d - fst d)"
      by (metis minus_diff_eq minus_divide_divide)
    also have "\<dots> = ((snd d - fst d) - (v - fst d)) / (snd d - fst d)" by simp
    also have "\<dots> = 1 - u"
    proof -
      have nz: "snd d - fst d \<noteq> 0" using d by simp
      have "(snd d - fst d - (v - fst d)) / (snd d - fst d) =
          (snd d - fst d) / (snd d - fst d) - (v - fst d) / (snd d - fst d)"
        by (rule diff_divide_distrib)
      then show ?thesis by (simp only: u_def divide_self [OF nz])
    qed
    finally show ?thesis .
  qed
  have "bimap d r v = fst r * (1 - u) + snd r * u"
    using d by (simp add: bimap_def normalize_def interpolateNumber_def flip u_def [symmetric])
  also have "\<dots> = fst r + u * (snd r - fst r)" by (simp add: algebra_simps)
  finally show ?thesis by (simp add: u_def)
qed

lemma scale_apply_affine:
  "fst (sc_domain s) \<noteq> snd (sc_domain s) \<Longrightarrow>
   scale_apply s v = fst (sc_range s) +
     (v - fst (sc_domain s)) / (snd (sc_domain s) - fst (sc_domain s)) * (snd (sc_range s) - fst (sc_range s))"
  unfolding scale_apply_def by (rule bimap_affine)

lemma scale_invert_affine:
  "fst (sc_range s) \<noteq> snd (sc_range s) \<Longrightarrow>
   scale_invert s px = fst (sc_domain s) +
     (px - fst (sc_range s)) / (snd (sc_range s) - fst (sc_range s)) * (snd (sc_domain s) - fst (sc_domain s))"
  unfolding scale_invert_def by (rule bimap_affine)

lemma scale_invert_apply:
  assumes d: "fst (sc_domain s) \<noteq> snd (sc_domain s)" and r: "fst (sc_range s) \<noteq> snd (sc_range s)"
  shows "scale_invert s (scale_apply s v) = v"
  using d r by (simp add: scale_apply_affine scale_invert_affine)

lemma scale_apply_invert:
  assumes d: "fst (sc_domain s) \<noteq> snd (sc_domain s)" and r: "fst (sc_range s) \<noteq> snd (sc_range s)"
  shows "scale_apply s (scale_invert s px) = px"
  using d r by (simp add: scale_apply_affine scale_invert_affine)

lemma rescaleX_range: "sc_range (rescaleX t s) = sc_range s"
  by (simp add: rescaleX_def)

lemma rescaleY_range: "sc_range (rescaleY t s) = sc_range s"
  by (simp add: rescaleY_def)

lemma rescaleX_domain_nondegenerate:
  assumes d: "fst (sc_domain s) \<noteq> snd (sc_domain s)" and r: "fst (sc_range s) \<noteq> snd (sc_range s)"
    and k: "tk t \<noteq> 0"
  shows "fst (sc_domain (rescaleX t s)) \<noteq> snd (sc_domain (rescaleX t s))"
proof
  assume "fst (sc_domain (rescaleX t s)) = snd (sc_domain (rescaleX t s))"
  then have "scale_invert s (invertX t (fst (sc_range s))) = scale_invert s (invertX t (snd (sc_range s)))"
    by (simp add: rescaleX_def)
  then have "scale_apply s (scale_invert s (invertX t (fst (sc_range s)))) =
      scale_apply s (scale_invert s (invertX t (snd (sc_range s))))"
    by simp
  then have "invertX t (fst (sc_range s)) = invertX t (snd (sc_range s))"
    by (simp add: scale_apply_invert [OF d r])
  with k r show False by (simp add: invertX_def)
qed

lemma rescaleY_domain_nondegenerate:
  assumes d: "fst (sc_domain s) \<noteq> snd (sc_domain s)" and r: "fst (sc_range s) \<noteq> snd (sc_range s)"
    and k: "tk t \<noteq> 0"
  shows "fst (sc_domain (rescaleY t s)) \<noteq> snd (sc_domain (rescaleY t s))"
proof
  assume "fst (sc_domain (rescaleY t s)) = snd (sc_domain (rescaleY t s))"
  then have "scale_invert s (invertY t (fst (sc_range s))) = scale_invert s (invertY t (snd (sc_range s)))"
    by (simp add: rescaleY_def)
  then have "scale_apply s (scale_invert s (invertY t (fst (sc_range s)))) =
      scale_apply s (scale_invert s (invertY t (snd (sc_range s))))"
    by simp
  then have "invertY t (fst (sc_range s)) = invertY t (snd (sc_range s))"
    by (simp add: scale_apply_invert [OF d r])
  with k r show False by (simp add: invertY_def)
qed

text \<open>The zoomed scale is the spec's \<open>translate + k \<times> base_scale(value)\<close>.\<close>

lemma rescaleX_apply:
  assumes d: "fst (sc_domain s) \<noteq> snd (sc_domain s)" and r: "fst (sc_range s) \<noteq> snd (sc_range s)"
    and k: "tk t \<noteq> 0"
  shows "scale_apply (rescaleX t s) v = tx t + tk t * scale_apply s v"
proof -
  let ?s' = "rescaleX t s"
  have d': "fst (sc_domain ?s') \<noteq> snd (sc_domain ?s')"
    by (rule rescaleX_domain_nondegenerate [OF d r k])
  have r': "fst (sc_range ?s') \<noteq> snd (sc_range ?s')" using r by (simp add: rescaleX_range)
  have inv: "scale_invert ?s' (tx t + tk t * scale_apply s v) = v"
  proof -
    have "scale_invert ?s' px = scale_invert s (invertX t px)" for px
    proof -
      define c where "c = (snd (sc_domain s) - fst (sc_domain s)) / (snd (sc_range s) - fst (sc_range s))"
      define w where "w = snd (sc_range s) - fst (sc_range s)"
      have w: "w \<noteq> 0" using r by (simp add: w_def)
      have inv_s: "scale_invert s p = fst (sc_domain s) + (p - fst (sc_range s)) * c" for p
        by (simp add: scale_invert_affine [OF r] c_def)
      have width: "snd (sc_domain ?s') - fst (sc_domain ?s') = w / tk t * c"
        by (simp add: rescaleX_def inv_s invertX_def w_def algebra_simps diff_divide_distrib)
      have "scale_invert ?s' px =
          fst (sc_domain ?s') + (px - fst (sc_range s)) / w * (w / tk t * c)"
        by (simp add: scale_invert_affine [OF r'] rescaleX_range width w_def)
      also have "\<dots> = fst (sc_domain ?s') + (px - fst (sc_range s)) / tk t * c"
        using w by simp
      also have "\<dots> = scale_invert s (invertX t px)"
        by (simp add: rescaleX_def inv_s invertX_def algebra_simps diff_divide_distrib)
      finally show ?thesis .
    qed
    then show ?thesis using k by (simp add: invertX_def scale_invert_apply [OF d r])
  qed
  have "scale_apply ?s' (scale_invert ?s' (tx t + tk t * scale_apply s v)) = tx t + tk t * scale_apply s v"
    by (rule scale_apply_invert [OF d' r'])
  then show ?thesis by (simp add: inv)
qed


lemma rescaleY_as_rescaleX: "rescaleY t s = rescaleX (t\<lparr>tx := ty t\<rparr>) s"
  by (simp add: rescaleY_def rescaleX_def invertX_def invertY_def)

lemma rescaleY_apply:
  assumes d: "fst (sc_domain s) \<noteq> snd (sc_domain s)" and r: "fst (sc_range s) \<noteq> snd (sc_range s)"
    and k: "tk t \<noteq> 0"
  shows "scale_apply (rescaleY t s) v = ty t + tk t * scale_apply s v"
  using rescaleX_apply [OF d r, of "t\<lparr>tx := ty t\<rparr>" v] k by (simp add: rescaleY_as_rescaleX)

lemma innerWidth_pos: "0 < innerWidth width"
  by (simp add: innerWidth_def)

lemma innerHeight_pos: "0 < innerHeight height"
  by (simp add: innerHeight_def)

lemma xBaseScale_nondegenerate:
  "fst (sc_domain (xBaseScale u width)) \<noteq> snd (sc_domain (xBaseScale u width))"
  "fst (sc_range (xBaseScale u width)) \<noteq> snd (sc_range (xBaseScale u width))"
  using innerWidth_pos [of width] by (simp_all add: xBaseScale_def getChartExtents_def)

lemma yBaseScale_nondegenerate:
  "fst (sc_domain (yBaseScale u height)) \<noteq> snd (sc_domain (yBaseScale u height))"
  "fst (sc_range (yBaseScale u height)) \<noteq> snd (sc_range (yBaseScale u height))"
  using innerHeight_pos [of height]
  by (simp_all add: yBaseScale_def humidityDomainDisplay_def humidityRatioToDisplay_def
        getChartExtents_def)

lemma xScale_round_trip:
  "tk t \<noteq> 0 \<Longrightarrow> scale_invert (xScale u width t) (scale_apply (xScale u width t) v) = v"
  unfolding xScale_def
  by (intro scale_invert_apply rescaleX_domain_nondegenerate xBaseScale_nondegenerate)
     (simp_all add: rescaleX_range xBaseScale_nondegenerate)

lemma yScale_round_trip:
  "tk t \<noteq> 0 \<Longrightarrow> scale_invert (yScale u height t) (scale_apply (yScale u height t) v) = v"
  unfolding yScale_def
  by (intro scale_invert_apply rescaleY_domain_nondegenerate yBaseScale_nondegenerate)
     (simp_all add: rescaleY_range yBaseScale_nondegenerate)

lemma display_round_trip: "humidityRatioFromDisplay u (humidityRatioToDisplay u w) = w"
  by (simp add: humidityRatioFromDisplay_def humidityRatioToDisplay_def)

lemma display_in_domain:
  "fst (ext_humidityRatio (getChartExtents u)) \<le> w \<Longrightarrow> w \<le> snd (ext_humidityRatio (getChartExtents u)) \<Longrightarrow>
   fst (humidityDomainDisplay u) \<le> humidityRatioToDisplay u w \<and>
   humidityRatioToDisplay u w \<le> snd (humidityDomainDisplay u)"
  by (cases u) (simp_all add: humidityDomainDisplay_def humidityRatioToDisplay_def getChartExtents_def)

lemma resolvePointerPosition_inside:
  "0 \<le> fst px \<Longrightarrow> fst px \<le> innerWidth width \<Longrightarrow> 0 \<le> snd px \<Longrightarrow> snd px \<le> innerHeight height \<Longrightarrow>
   resolvePointerPosition width height px = px"
  by (simp add: resolvePointerPosition_def prod_eq_iff)

lemmas chart_defs = forward_def inverse_map_def resolvePointerPosition_def xScale_def yScale_def
  rescaleX_def rescaleY_def xBaseScale_def yBaseScale_def scale_apply_def scale_invert_def
  bimap_def normalize_def interpolateNumber_def invertX_def invertY_def innerWidth_def
  innerHeight_def humidityDomainDisplay_def humidityRatioToDisplay_def
  humidityRatioFromDisplay_def getChartExtents_def Let_def

lemma demo_forward_hidden:
  "forward SI 1000 600 \<lparr>tk = 2, tx = -100, ty = -50\<rparr> (26, 21 / 2000) = (4537 / 5, 650)"
  by (simp add: chart_defs)

lemma demo_forward_visible:
  "forward SI 1000 600 \<lparr>tk = 2, tx = -100, ty = -50\<rparr> (20, 21 / 1000) = (776, 350)"
  by (simp add: chart_defs)

text \<open>
  Claim C5, as stated, at a point that the zoom has moved out of view: at \<open>k = 2\<close> with
  translation \<open>(-100, -50)\<close>, a transform inside the zoom's clamp, on a 1000 x 600
  container (plotting rectangle 876 x 500), the point (26, 0.0105) of the SI domain goes
  to the pixel (907.4, 650), outside the rectangle. The pointer handlers clamp a pixel to the rectangle before inverting, so
  the inverse mapping returns the point under the corner (876, 500) instead.
\<close>

theorem C5_hidden_point_counterexample:
  "withinRect (innerWidth 1000, innerHeight 600) \<lparr>tk = 2, tx = -100, ty = -50\<rparr>
   \<and> fst (ext_dryBulb (getChartExtents SI)) \<le> 26 \<and> 26 \<le> snd (ext_dryBulb (getChartExtents SI))
   \<and> fst (ext_humidityRatio (getChartExtents SI)) \<le> 0.0105
   \<and> 0.0105 \<le> snd (ext_humidityRatio (getChartExtents SI))
   \<and> innerWidth 1000 = 876 \<and> innerHeight 600 = 500
   \<and> forward SI 1000 600 \<lparr>tk = 2, tx = -100, ty = -50\<rparr> (26, 0.0105) = (4537 / 5, 650)
   \<and> resolvePointerPosition 1000 600 (4537 / 5, 650) = (876, 500)
   \<and> inverse_map SI 1000 600 \<lparr>tk = 2, tx = -100, ty = -50\<rparr>
        (forward SI 1000 600 \<lparr>tk = 2, tx = -100, ty = -50\<rparr> (26, 0.0105)) = (5380 / 219, 63 / 4000)
   \<and> (5380 / 219, 63 / 4000) \<noteq> ((26, 0.0105) :: real \<times> real)"
  by (simp add: chart_defs withinRect_def)

text \<open>
  Claim C5, amended: for every point (dry bulb, humidity ratio) inside the chart extents and
  every transform with \<open>k\<close> in \<open>[1, 12]\<close> and any translation, the zoomed scales are exact
  inverses of the forward mapping: inverting the x scale at the forward pixel returns the
  dry bulb, and inverting the y scale and undoing the x1000 (SI) or x7000 (IP) display
  scaling returns the humidity ratio; the forward mapping is \<open>translate + k \<times> base_scale\<close>.
  The inverse mapping of the pointer handlers, which first clamps the pixel to the
  plotting rectangle, returns the point whenever its forward pixel lies inside the
  plotting rectangle. Over the reals the round trip is exact.
\<close>

theorem C5_inverse_of_forward:
  assumes k: "1 \<le> tk t" "tk t \<le> 12"
    and x: "fst (ext_dryBulb (getChartExtents u)) \<le> fst p" "fst p \<le> snd (ext_dryBulb (getChartExtents u))"
    and y: "fst (ext_humidityRatio (getChartExtents u)) \<le> snd p"
           "snd p \<le> snd (ext_humidityRatio (getChartExtents u))"
  shows "scale_invert (xScale u width t) (fst (forward u width height t p)) = fst p
    \<and> humidityRatioFromDisplay u
         (scale_invert (yScale u height t) (snd (forward u width height t p))) = snd p
    \<and> (0 \<le> fst (forward u width height t p) \<and> fst (forward u width height t p) \<le> innerWidth width
        \<and> 0 \<le> snd (forward u width height t p) \<and> snd (forward u width height t p) \<le> innerHeight height
        \<longrightarrow> inverse_map u width height t (forward u width height t p) = p)
    \<and> scale_apply (xScale u width t) (fst p) = tx t + tk t * scale_apply (xBaseScale u width) (fst p)
    \<and> scale_apply (yScale u height t) (humidityRatioToDisplay u (snd p)) =
        ty t + tk t * scale_apply (yBaseScale u height) (humidityRatioToDisplay u (snd p))"
proof (intro conjI impI)
  from k have k0: "tk t \<noteq> 0" by simp
  show ix: "scale_invert (xScale u width t) (fst (forward u width height t p)) = fst p"
    by (simp add: forward_def xScale_round_trip [OF k0])
  show iy: "humidityRatioFromDisplay u
         (scale_invert (yScale u height t) (snd (forward u width height t p))) = snd p"
    by (simp add: forward_def yScale_round_trip [OF k0] display_round_trip)
  show "scale_apply (xScale u width t) (fst p) = tx t + tk t * scale_apply (xBaseScale u width) (fst p)"
    unfolding xScale_def by (rule rescaleX_apply [OF xBaseScale_nondegenerate k0])
  show "scale_apply (yScale u height t) (humidityRatioToDisplay u (snd p)) =
        ty t + tk t * scale_apply (yBaseScale u height) (humidityRatioToDisplay u (snd p))"
    unfolding yScale_def by (rule rescaleY_apply [OF yBaseScale_nondegenerate k0])
  assume "0 \<le> fst (forward u width height t p) \<and> fst (forward u width height t p) \<le> innerWidth width
        \<and> 0 \<le> snd (forward u width height t p) \<and> snd (forward u width height t p) \<le> innerHeight height"
  then have inside: "resolvePointerPosition width height (forward u width height t p) =
      forward u width height t p"
    by (intro resolvePointerPosition_inside) simp_all
  have "fst (inverse_map u width height t (forward u width height t p)) = fst p"
    using x by (simp add: inverse_map_def Let_def inside ix)
  moreover have "scale_invert (yScale u height t) (snd (forward u width height t p)) =
      humidityRatioToDisplay u (snd p)"
    by (simp add: forward_def yScale_round_trip [OF k0])
  then have "snd (inverse_map u width height t (forward u width height t p)) = snd p"
    using display_in_domain [OF y]
    by (simp add: inverse_map_def Let_def inside display_round_trip)
  ultimately show "inverse_map u width height t (forward u width height t p) = p"
    by (simp add: prod_eq_iff)
qed

theorem C5_inverse_of_forward_witness:
  "(1 :: real) \<le> 2 \<and> (2 :: real) \<le> 12
   \<and> fst (ext_dryBulb (getChartExtents SI)) \<le> 20 \<and> 20 \<le> snd (ext_dryBulb (getChartExtents SI))
   \<and> fst (ext_humidityRatio (getChartExtents SI)) \<le> 0.021
   \<and> 0.021 \<le> snd (ext_humidityRatio (getChartExtents SI))
   \<and> forward SI 1000 600 \<lparr>tk = 2, tx = -100, ty = -50\<rparr> (20, 0.021) = (776, 350)
   \<and> (0 :: real) \<le> 776 \<and> 776 \<le> innerWidth 1000 \<and> (0 :: real) \<le> 350 \<and> 350 \<le> innerHeight 600
   \<and> inverse_map SI 1000 600 \<lparr>tk = 2, tx = -100, ty = -50\<rparr> (776, 350) = (20, 0.021)
   \<and> scale_invert (xScale SI 1000 \<lparr>tk = 2, tx = -100, ty = -50\<rparr>) (4537 / 5) = 26"
proof -
  let ?t = "\<lparr>tk = 2, tx = -100, ty = -50\<rparr>"
  have e: "fst (ext_dryBulb (getChartExtents SI)) \<le> 20" "20 \<le> snd (ext_dryBulb (getChartExtents SI))"
    "fst (ext_humidityRatio (getChartExtents SI)) \<le> 0.021"
    "0.021 \<le> snd (ext_humidityRatio (getChartExtents SI))"
    by (simp_all add: getChartExtents_def)
  have e': "fst (ext_dryBulb (getChartExtents SI)) \<le> 26" "26 \<le> snd (ext_dryBulb (getChartExtents SI))"
    "fst (ext_humidityRatio (getChartExtents SI)) \<le> 0.0105"
    "0.0105 \<le> snd (ext_humidityRatio (getChartExtents SI))"
    by (simp_all add: getChartExtents_def)
  have inside: "(0 :: real) \<le> 776" "776 \<le> innerWidth 1000" "(0 :: real) \<le> 350" "350 \<le> innerHeight 600"
    by (simp_all add: innerWidth_def innerHeight_def)
  from C5_inverse_of_forward [of ?t SI "(20, 0.021)" 1000 600] e inside
  have vis: "inverse_map SI 1000 600 ?t (776, 350) = (20, 0.021)"
    by (simp add: demo_forward_visible)
  from C5_inverse_of_forward [of ?t SI "(26, 0.0105)" 1000 600] e'
  have hid: "scale_invert (xScale SI 1000 ?t) (4537 / 5) = 26"
    by (simp add: demo_forward_hidden)
  from e inside vis hid demo_forward_visible show ?thesis by simp
qed

section \<open>The zoom transform stays clamped\<close>

lemma shift1_clamps:
  assumes k: "1 \<le> k" and w: "0 < w"
  shows "w - k * w \<le> x + k * shift1 ((0 - x) / k - 0) ((w - x) / k - w)
       \<and> x + k * shift1 ((0 - x) / k - 0) ((w - x) / k - w) \<le> 0"
proof -
  define d0 where "d0 = (0 - x) / k - 0"
  define d1 where "d1 = (w - x) / k - w"
  from k have k0: "0 < k" by simp
  have kd0: "k * d0 = - x" using k0 by (simp add: d0_def)
  have kd1: "k * d1 = w - x - k * w" using k0 by (simp add: d1_def field_simps)
  have "k * (d1 - d0) = w - k * w" using kd0 kd1 by (simp add: algebra_simps)
  moreover have "w - k * w \<le> 0" using k w by simp
  ultimately have "k * (d1 - d0) \<le> 0" by simp
  with k0 have le: "d1 \<le> d0" by (simp add: mult_le_0_iff)
  have wk: "w - k * w \<le> 0" using k w by simp
  have "w - k * w \<le> x + k * shift1 d0 d1 \<and> x + k * shift1 d0 d1 \<le> 0"
  proof (cases "d0 < 0")
    case True
    then have "shift1 d0 d1 = d0" using le by (simp add: shift1_def)
    then show ?thesis using kd0 wk by simp
  next
    case False
    then have "0 \<le> k * d0" using k0 by simp
    then have x0: "x \<le> 0" using kd0 by simp
    show ?thesis
    proof (cases "0 < d1")
      case True
      then have "shift1 d0 d1 = d1" using le False by (simp add: shift1_def)
      then show ?thesis using kd1 wk by simp
    next
      case d1: False
      then have "shift1 d0 d1 = 0" using le False by (simp add: shift1_def)
      moreover have "k * d1 \<le> 0" using d1 k0 by (simp add: mult_le_0_iff)
      ultimately show ?thesis using kd1 x0 by simp
    qed
  qed
  then show ?thesis by (simp only: d0_def d1_def)
qed

lemma constrain_withinRect:
  assumes k: "1 \<le> tk t" "tk t \<le> 12" and r: "0 < fst rect" "0 < snd rect"
  shows "withinRect rect (constrain t rect)"
  using shift1_clamps [OF k(1) r(1), of "tx t"] shift1_clamps [OF k(1) r(2), of "ty t"] k
  by (simp add: withinRect_def constrain_def translate_by_def invertX_def invertY_def Let_def)

lemma applyGesture_withinRect:
  assumes t: "withinRect rect t" and r: "0 < fst rect" "0 < snd rect"
  shows "withinRect rect (applyGesture rect t g)"
proof (cases g)
  case (Wheel f p)
  show ?thesis unfolding Wheel applyGesture.simps
    by (rule constrain_withinRect [OF _ _ r])
       (simp_all add: translate_to_def scale_to_def scaleExtent_def)
next
  case (Drag p q)
  show ?thesis unfolding Drag applyGesture.simps
    using t by (intro constrain_withinRect [OF _ _ r]) (simp_all add: translate_to_def withinRect_def)
next
  case DoubleClick
  then show ?thesis by (simp add: withinRect_def zoomIdentity_def)
qed

lemma foldl_withinRect:
  "withinRect rect t \<Longrightarrow> 0 < fst rect \<Longrightarrow> 0 < snd rect \<Longrightarrow>
   withinRect rect (foldl (applyGesture rect) t gs)"
  by (induction gs arbitrary: t) (simp_all add: applyGesture_withinRect)

lemma runGestures_withinRect:
  "withinRect (innerWidth width, innerHeight height) (runGestures width height gs)"
  unfolding runGestures_def
  by (rule foldl_withinRect) (simp_all add: withinRect_def zoomIdentity_def innerWidth_pos innerHeight_pos)

lemma withinRect_window:
  assumes t: "withinRect (w, h) t" and w: "0 < w" and h: "0 < h"
  shows "0 \<le> invertX t 0" "invertX t 0 \<le> invertX t w" "invertX t w \<le> w"
    "0 \<le> invertY t 0" "invertY t 0 \<le> invertY t h" "invertY t h \<le> h"
proof -
  from t have k: "0 < tk t" and k1: "1 \<le> tk t" by (simp_all add: withinRect_def)
  from t have x: "w - tk t * w \<le> tx t" "tx t \<le> 0" and y: "h - tk t * h \<le> ty t" "ty t \<le> 0"
    by (simp_all add: withinRect_def)
  show "0 \<le> invertX t 0" using k x by (simp add: invertX_def divide_nonpos_pos)
  show "invertX t 0 \<le> invertX t w" using k w by (simp add: invertX_def field_simps)
  show "invertX t w \<le> w" using k x by (simp add: invertX_def field_simps)
  show "0 \<le> invertY t 0" using k y by (simp add: invertY_def divide_nonpos_pos)
  show "invertY t 0 \<le> invertY t h" using k h by (simp add: invertY_def field_simps)
  show "invertY t h \<le> h" using k y by (simp add: invertY_def field_simps)
qed


lemma invert_increasing:
  assumes d: "fst (sc_domain s) < snd (sc_domain s)" and r: "fst (sc_range s) < snd (sc_range s)"
    and p: "p \<le> q"
  shows "scale_invert s p \<le> scale_invert s q"
proof -
  have r': "fst (sc_range s) \<noteq> snd (sc_range s)" using r by simp
  have "(p - fst (sc_range s)) / (snd (sc_range s) - fst (sc_range s))
      \<le> (q - fst (sc_range s)) / (snd (sc_range s) - fst (sc_range s))"
    using r p by (simp add: divide_right_mono)
  moreover have "0 \<le> snd (sc_domain s) - fst (sc_domain s)" using d by simp
  ultimately have "(p - fst (sc_range s)) / (snd (sc_range s) - fst (sc_range s)) * (snd (sc_domain s) - fst (sc_domain s))
      \<le> (q - fst (sc_range s)) / (snd (sc_range s) - fst (sc_range s)) * (snd (sc_domain s) - fst (sc_domain s))"
    by (rule mult_right_mono)
  then show ?thesis unfolding scale_invert_affine [OF r'] by (rule add_left_mono)
qed

lemma invert_decreasing:
  assumes d: "fst (sc_domain s) < snd (sc_domain s)" and r: "snd (sc_range s) < fst (sc_range s)"
    and p: "p \<le> q"
  shows "scale_invert s q \<le> scale_invert s p"
proof -
  have r': "fst (sc_range s) \<noteq> snd (sc_range s)" using r by simp
  have "(q - fst (sc_range s)) / (snd (sc_range s) - fst (sc_range s))
      \<le> (p - fst (sc_range s)) / (snd (sc_range s) - fst (sc_range s))"
    using r p by (simp add: divide_right_mono_neg)
  moreover have "0 \<le> snd (sc_domain s) - fst (sc_domain s)" using d by simp
  ultimately have "(q - fst (sc_range s)) / (snd (sc_range s) - fst (sc_range s)) * (snd (sc_domain s) - fst (sc_domain s))
      \<le> (p - fst (sc_range s)) / (snd (sc_range s) - fst (sc_range s)) * (snd (sc_domain s) - fst (sc_domain s))"
    by (rule mult_right_mono)
  then show ?thesis unfolding scale_invert_affine [OF r'] by (rule add_left_mono)
qed

lemma invert_ends:
  assumes r: "fst (sc_range s) \<noteq> snd (sc_range s)"
  shows "scale_invert s (fst (sc_range s)) = fst (sc_domain s)"
    and "scale_invert s (snd (sc_range s)) = snd (sc_domain s)"
  using r by (simp_all add: scale_invert_affine [OF r])

lemma visible_x:
  assumes t: "withinRect (innerWidth width, innerHeight height) t"
  shows "fst (ext_dryBulb (getChartExtents u)) \<le> fst (sc_domain (xScale u width t))
    \<and> fst (sc_domain (xScale u width t)) \<le> snd (sc_domain (xScale u width t))
    \<and> snd (sc_domain (xScale u width t)) \<le> snd (ext_dryBulb (getChartExtents u))"
proof -
  let ?b = "xBaseScale u width"
  have d: "fst (sc_domain ?b) < snd (sc_domain ?b)"
    by (simp add: xBaseScale_def getChartExtents_def)
  have r: "fst (sc_range ?b) < snd (sc_range ?b)"
    by (simp add: xBaseScale_def innerWidth_pos)
  have r': "fst (sc_range ?b) \<noteq> snd (sc_range ?b)" using r by simp
  note w = withinRect_window [OF t innerWidth_pos innerHeight_pos]
  have e: "scale_invert ?b 0 = fst (ext_dryBulb (getChartExtents u))"
    "scale_invert ?b (innerWidth width) = snd (ext_dryBulb (getChartExtents u))"
    using invert_ends [OF r'] by (simp_all add: xBaseScale_def)
  have "scale_invert ?b 0 \<le> scale_invert ?b (invertX t 0)"
    by (rule invert_increasing [OF d r w(1)])
  moreover have "scale_invert ?b (invertX t 0) \<le> scale_invert ?b (invertX t (innerWidth width))"
    by (rule invert_increasing [OF d r w(2)])
  moreover have "scale_invert ?b (invertX t (innerWidth width)) \<le> scale_invert ?b (innerWidth width)"
    by (rule invert_increasing [OF d r w(3)])
  ultimately show ?thesis
    by (simp add: e xScale_def rescaleX_def) (simp add: xBaseScale_def)
qed

lemma visible_y:
  assumes t: "withinRect (innerWidth width, innerHeight height) t"
  shows "fst (humidityDomainDisplay u) \<le> fst (sc_domain (yScale u height t))
    \<and> fst (sc_domain (yScale u height t)) \<le> snd (sc_domain (yScale u height t))
    \<and> snd (sc_domain (yScale u height t)) \<le> snd (humidityDomainDisplay u)"
proof -
  let ?b = "yBaseScale u height"
  have d: "fst (sc_domain ?b) < snd (sc_domain ?b)"
    by (simp add: yBaseScale_def humidityDomainDisplay_def humidityRatioToDisplay_def getChartExtents_def)
  have r: "snd (sc_range ?b) < fst (sc_range ?b)"
    by (simp add: yBaseScale_def innerHeight_pos)
  have r': "fst (sc_range ?b) \<noteq> snd (sc_range ?b)" using r by simp
  note w = withinRect_window [OF t innerWidth_pos innerHeight_pos]
  have e: "scale_invert ?b (innerHeight height) = fst (humidityDomainDisplay u)"
    "scale_invert ?b 0 = snd (humidityDomainDisplay u)"
    using invert_ends [OF r'] by (simp_all add: yBaseScale_def)
  have "scale_invert ?b (innerHeight height) \<le> scale_invert ?b (invertY t (innerHeight height))"
    by (rule invert_decreasing [OF d r w(6)])
  moreover have "scale_invert ?b (invertY t (innerHeight height)) \<le> scale_invert ?b (invertY t 0)"
    by (rule invert_decreasing [OF d r w(5)])
  moreover have "scale_invert ?b (invertY t 0) \<le> scale_invert ?b 0"
    by (rule invert_decreasing [OF d r w(4)])
  ultimately show ?thesis
    by (simp add: e yScale_def rescaleY_def) (simp add: yBaseScale_def)
qed

text \<open>
  Claim C9: after any sequence of wheel, drag and double-click gestures, starting from the
  identity, the stored transform has \<open>k\<close> in \<open>[1, 12]\<close>; the part of the plotting
  rectangle it shows lies inside the rectangle in both directions, so the visible domain
  window lies inside the chart extents; and at \<open>k = 1\<close> the translation is zero.
\<close>

theorem C9_transform_stays_clamped:
  assumes t: "t = runGestures width height gs"
  shows "1 \<le> tk t \<and> tk t \<le> 12
    \<and> 0 \<le> invertX t 0 \<and> invertX t (innerWidth width) \<le> innerWidth width
    \<and> 0 \<le> invertY t 0 \<and> invertY t (innerHeight height) \<le> innerHeight height
    \<and> fst (ext_dryBulb (getChartExtents u)) \<le> fst (sc_domain (xScale u width t))
    \<and> snd (sc_domain (xScale u width t)) \<le> snd (ext_dryBulb (getChartExtents u))
    \<and> fst (humidityDomainDisplay u) \<le> fst (sc_domain (yScale u height t))
    \<and> snd (sc_domain (yScale u height t)) \<le> snd (humidityDomainDisplay u)
    \<and> (tk t = 1 \<longrightarrow> tx t = 0 \<and> ty t = 0)"
proof -
  have w: "withinRect (innerWidth width, innerHeight height) t"
    unfolding t by (rule runGestures_withinRect)
  note win = withinRect_window [OF w innerWidth_pos innerHeight_pos]
  have k: "1 \<le> tk t" "tk t \<le> 12" using w by (simp_all add: withinRect_def)
  have one: "tk t = 1 \<longrightarrow> tx t = 0 \<and> ty t = 0"
    using w by (auto simp: withinRect_def)
  from k win(1) win(3) win(4) win(6) visible_x [OF w, of u] visible_y [OF w, of u] one
  show ?thesis by blast
qed

lemma demo_gestures:
  "runGestures 1000 600 [Wheel 3 (100, 100), Drag (0, 0) (500, 500), Wheel 100 (800, 10),
      Drag (500, 500) (0, 0)] = \<lparr>tk = 12, tx = - 2900, ty = - 530\<rparr>"
  by (simp add: runGestures_def constrain_def translate_by_def translate_to_def scale_to_def
        scaleExtent_def shift1_def invertX_def invertY_def innerWidth_def innerHeight_def
        zoomIdentity_def Let_def)

theorem C9_transform_stays_clamped_witness:
  "runGestures 1000 600 [Wheel 3 (100, 100), Drag (0, 0) (500, 500), Wheel 100 (800, 10),
      Drag (500, 500) (0, 0)] = \<lparr>tk = 12, tx = - 2900, ty = - 530\<rparr>
   \<and> (1 :: real) \<le> 12
   \<and> 0 \<le> invertX \<lparr>tk = 12, tx = - 2900, ty = - 530\<rparr> 0
   \<and> invertX \<lparr>tk = 12, tx = - 2900, ty = - 530\<rparr> (innerWidth 1000) \<le> innerWidth 1000
   \<and> fst (ext_dryBulb (getChartExtents SI))
       \<le> fst (sc_domain (xScale SI 1000 \<lparr>tk = 12, tx = - 2900, ty = - 530\<rparr>))
   \<and> runGestures 1000 600 [Wheel 3 (100, 100), DoubleClick] = zoomIdentity"
proof -
  let ?gs = "[Wheel 3 (100, 100), Drag (0, 0) (500, 500), Wheel 100 (800, 10), Drag (500, 500) (0, 0)]"
  let ?t = "\<lparr>tk = 12, tx = - 2900, ty = - 530\<rparr>"
  have t: "?t = runGestures 1000 600 ?gs" by (simp add: demo_gestures)
  from C9_transform_stays_clamped [OF t, of SI]
  have "0 \<le> invertX ?t 0" "invertX ?t (innerWidth 1000) \<le> innerWidth 1000"
    "fst (ext_dryBulb (getChartExtents SI)) \<le> fst (sc_domain (xScale SI 1000 ?t))"
    by blast+
  moreover have "runGestures 1000 600 [Wheel 3 (100, 100), DoubleClick] = zoomIdentity"
    by (simp add: runGestures_def)
  ultimately show ?thesis using demo_gestures by simp
qed

section \<open>Sampling loops\<close>

text \<open>With a zero step the loop variable never moves: a loop that is entered never returns.\<close>

lemma for_le_zero_step_diverges:
  assumes "js_le t hi"
  shows "for_le body t hi (Fin 0) acc = None"
proof -
  have "\<not> (step = Fin 0 \<and> js_le t hi)" if "for_le body t hi step acc = Some y" for step y
    using that
  proof (induction rule: for_le.raw_induct [rotated, consumes 1])
    case (1 for_le body t hi step acc y)
    show ?case
    proof
      assume a: "step = Fin 0 \<and> js_le t hi"
      then have "js_add t step = t" by (cases t) simp_all
      with a "1.hyps" have "for_le body t hi step (body t acc) = Some y" by simp
      from "1.IH" [OF this] a show False by simp
    qed
  qed
  with assms show ?thesis by (cases "for_le body t hi (Fin 0) acc") auto
qed

lemma saturation_zero_step_diverges:
  "lo \<le> hi \<Longrightarrow> generateSaturationCurve lib system pressure (Fin lo, Fin hi) (Fin 0) = None"
  by (simp add: generateSaturationCurve_def withUnitSystem_def for_le_zero_step_diverges)

text \<open>With finite bounds and a positive step the loop ends.\<close>

lemma for_le_samples:
  "0 < s \<Longrightarrow>
   for_le body (Fin t) (Fin hi) (Fin s) acc =
   Some (foldl (\<lambda>ps x. body (Fin x) ps) acc (samples t hi s))"
proof (induction t hi s arbitrary: acc rule: samples.induct)
  case (1 t hi s)
  show ?case
  proof (cases "t \<le> hi")
    case True
    with "1.prems" have "for_le body (Fin t) (Fin hi) (Fin s) acc =
        for_le body (Fin (t + s)) (Fin hi) (Fin s) (body (Fin t) acc)"
      by (subst for_le.simps) simp
    also have "\<dots> = Some (foldl (\<lambda>ps x. body (Fin x) ps) (body (Fin t) acc) (samples (t + s) hi s))"
      using "1.IH" [of "body (Fin t) acc"] "1.prems" True by simp
    also have "\<dots> = Some (foldl (\<lambda>ps x. body (Fin x) ps) acc (samples t hi s))"
      using "1.prems" True by (subst (2) samples.simps) simp
    finally show ?thesis .
  next
    case False
    then show ?thesis
      by (subst for_le.simps, subst samples.simps) simp
  qed
qed

lemma foldl_append_emit:
  assumes "\<And>x ps. body x ps = ps @ emit x"
  shows "foldl (\<lambda>ps x. body (f x) ps) acc xs = acc @ concat (map (\<lambda>x. emit (f x)) xs)"
  by (induction xs arbitrary: acc) (simp_all add: assms)

lemma samples_lower: "x \<in> set (samples t hi s) \<Longrightarrow> t \<le> x \<and> x \<le> hi"
proof (induction t hi s rule: samples.induct)
  case (1 t hi s)
  from "1.prems" have g: "0 < s \<and> t \<le> hi"
    by (subst (asm) samples.simps) (simp split: if_splits)
  from "1.prems" g have "x = t \<or> x \<in> set (samples (t + s) hi s)"
    by (subst (asm) samples.simps) simp
  then show ?case
  proof
    assume "x = t" with g show ?thesis by simp
  next
    assume "x \<in> set (samples (t + s) hi s)"
    from "1.IH" [OF g this] g show ?thesis by simp
  qed
qed

lemma samples_strict: "sorted_wrt (<) (samples t hi s)"
proof (induction t hi s rule: samples.induct)
  case (1 t hi s)
  show ?case
  proof (cases "0 < s \<and> t \<le> hi")
    case True
    have "\<forall>x\<in>set (samples (t + s) hi s). t < x"
      using samples_lower [of _ "t + s" hi s] True by fastforce
    with "1.IH" [OF True] True show ?thesis
      by (subst samples.simps) simp
  next
    case False
    then show ?thesis by (subst samples.simps) auto
  qed
qed

lemma samples_multiple: "x \<in> set (samples t hi s) \<Longrightarrow> \<exists>n::nat. x = t + real n * s"
proof (induction t hi s rule: samples.induct)
  case (1 t hi s)
  from "1.prems" have g: "0 < s \<and> t \<le> hi"
    by (subst (asm) samples.simps) (simp split: if_splits)
  from "1.prems" g have "x = t \<or> x \<in> set (samples (t + s) hi s)"
    by (subst (asm) samples.simps) simp
  then show ?case
  proof
    assume "x = t"
    then have "x = t + real 0 * s" by simp
    then show ?thesis by blast
  next
    assume "x \<in> set (samples (t + s) hi s)"
    from "1.IH" [OF g this] obtain n :: nat where "x = t + s + real n * s" by blast
    then have "x = t + real (Suc n) * s" by (simp add: algebra_simps)
    then show ?thesis by blast
  qed
qed


lemma samples_member:
  "0 < s \<Longrightarrow> t + real n * s \<le> hi \<Longrightarrow> t + real n * s \<in> set (samples t hi s)"
proof (induction n arbitrary: t)
  case 0
  then show ?case by (subst samples.simps) simp
next
  case (Suc n)
  have "0 \<le> real (Suc n) * s" using Suc.prems(1) by simp
  then have t: "t \<le> hi" using Suc.prems(2) by linarith
  have eq: "t + real (Suc n) * s = (t + s) + real n * s" by (simp add: algebra_simps)
  with Suc.prems have "(t + s) + real n * s \<le> hi" by simp
  from Suc.IH [OF Suc.prems(1) this]
  have "t + real (Suc n) * s \<in> set (samples (t + s) hi s)" by (simp only: eq)
  moreover have "samples t hi s = t # samples (t + s) hi s"
    using t Suc.prems(1) by (subst samples.simps) simp
  ultimately show ?case by simp
qed


section \<open>The saturation curve\<close>

lemma sorted_wrt_concat_map:
  assumes "sorted_wrt (<) (xs :: real list)"
    and "\<And>x. x \<in> set xs \<Longrightarrow> sorted_wrt R (g x)"
    and "\<And>x y a b. x \<in> set xs \<Longrightarrow> y \<in> set xs \<Longrightarrow> x < y \<Longrightarrow> a \<in> set (g x) \<Longrightarrow> b \<in> set (g y) \<Longrightarrow> R a b"
  shows "sorted_wrt R (concat (map g xs))"
  using assms
proof (induction xs)
  case Nil
  then show ?case by simp
next
  case (Cons x xs)
  have "sorted_wrt R (concat (map g xs))"
  proof (rule Cons.IH)
    show "sorted_wrt (<) xs" using Cons.prems(1) by simp
    show "sorted_wrt R (g y)" if "y \<in> set xs" for y using Cons.prems(2) that by simp
    show "R a b" if "y \<in> set xs" "z \<in> set xs" "y < z" "a \<in> set (g y)" "b \<in> set (g z)" for y z a b
      using Cons.prems(3) [of y z a b] that by simp
  qed
  moreover have "sorted_wrt R (g x)" using Cons.prems(2) by simp
  moreover have "R a b" if "a \<in> set (g x)" "b \<in> set (concat (map g xs))" for a b
  proof -
    from that(2) obtain y where y: "y \<in> set xs" "b \<in> set (g y)" by auto
    with Cons.prems(1) have "x < y" by simp
    with Cons.prems(3) [of x y a b] y that(1) show ?thesis by simp
  qed
  ultimately show ?case by (simp add: sorted_wrt_append)
qed

lemma saturationBody_append:
  "saturationBody psy pressure t ps = ps @ saturationBody psy pressure t []"
  by (simp add: saturationBody_def andThen_def pushPoint_def split: sum.splits)

lemma saturationBody_point:
  "a \<in> set (saturationBody psy pressure t []) \<Longrightarrow>
   saturationBody psy pressure t [] = [a] \<and> dryBulb a = t \<and>
   GetSatHumRatio psy t pressure = Inr (humidityRatio a) \<and>
   GetMoistAirEnthalpy psy t (humidityRatio a) = Inr (enthalpy a)"
  by (auto simp: saturationBody_def andThen_def pushPoint_def split: sum.splits)

lemma saturation_points:
  assumes s: "0 < s"
  shows "generateSaturationCurve lib system pressure (Fin lo, Fin hi) (Fin s) =
   Some (concat (map (\<lambda>x. saturationBody (lib system) pressure (Fin x) []) (samples lo hi s)))"
proof -
  have "for_le (saturationBody (lib system) pressure) (Fin lo) (Fin hi) (Fin s) [] =
      Some (foldl (\<lambda>ps x. saturationBody (lib system) pressure (Fin x) ps) [] (samples lo hi s))"
    by (rule for_le_samples [OF s])
  also have "foldl (\<lambda>ps x. saturationBody (lib system) pressure (Fin x) ps) [] (samples lo hi s) =
      [] @ concat (map (\<lambda>x. saturationBody (lib system) pressure (Fin x) []) (samples lo hi s))"
    by (rule foldl_append_emit) (rule saturationBody_append)
  finally show ?thesis
    by (simp add: generateSaturationCurve_def withUnitSystem_def)
qed

lemma demo_saturation_boiling:
  "generateSaturationCurve demoLib SI (Fin 101) (Fin 0, Fin 2) (Fin 2) =
   Some [\<lparr>dryBulb = Fin 0, humidityRatio = Fin (1 / 100), enthalpy = Fin 25\<rparr>,
         \<lparr>dryBulb = Fin 2, humidityRatio = Fin (1 / 10000000), enthalpy = Fin (8001 / 4000)\<rparr>]"
  by (simp add: generateSaturationCurve_def saturationBody_def for_le.simps demo_defs)

text \<open>
  Claim C7, as stated, on a domain that crosses the boiling point of the pressure: the
  solver's saturation humidity ratio rises up to the boiling point and is the floor
  \<open>10\<^sup>-\<^sup>7\<close> above it, so it is not monotone in the dry bulb, and the generator pushes what
  the solver returns. On the concrete solver at pressure 101, domain \<open>[0, 2]\<close> and step 2
  the curve has the humidity ratios 0.01 and then \<open>10\<^sup>-\<^sup>7\<close>: the dry bulb increases, the
  humidity ratio decreases.
\<close>

theorem C7_boiling_point_counterexample:
  "(0 :: real) < 2
   \<and> generateSaturationCurve demoLib SI (Fin 101) (Fin 0, Fin 2) (Fin 2) =
     Some [\<lparr>dryBulb = Fin 0, humidityRatio = Fin (1 / 100), enthalpy = Fin 25\<rparr>,
           \<lparr>dryBulb = Fin 2, humidityRatio = Fin (1 / 10000000), enthalpy = Fin (8001 / 4000)\<rparr>]
   \<and> sorted_wrt (\<lambda>a b. js_lt (dryBulb a) (dryBulb b))
        (the (generateSaturationCurve demoLib SI (Fin 101) (Fin 0, Fin 2) (Fin 2)))
   \<and> \<not> sorted_wrt (\<lambda>a b. js_le (humidityRatio a) (humidityRatio b))
        (the (generateSaturationCurve demoLib SI (Fin 101) (Fin 0, Fin 2) (Fin 2)))
   \<and> js_lt (Fin (1 / 10000000)) (Fin (1 / 100))"
  by (simp add: demo_saturation_boiling)

text \<open>
  Claim C7, amended: for every unit system, pressure, finite dry-bulb domain \<open>[lo, hi]\<close> and
  positive step, \<^verbatim>\<open>generateSaturationCurve\<close> returns, and the dry bulb of its points is
  strictly increasing in the order in which they were pushed; no sort is involved. The
  humidity ratio of every point is the value \<^verbatim>\<open>GetSatHumRatio\<close> returned at the dry bulb
  of the point, so the humidity ratio is non-decreasing along the points whenever the
  solver's saturation humidity ratio is non-decreasing in the dry bulb on the domain: the
  generator adds no ordering of its own.
\<close>

theorem C7_saturation_curve_monotone:
  assumes s: "0 < s"
  shows "\<exists>ps. generateSaturationCurve lib system pressure (Fin lo, Fin hi) (Fin s) = Some ps
    \<and> sorted_wrt (\<lambda>a b. js_lt (dryBulb a) (dryBulb b)) ps
    \<and> (\<forall>p\<in>set ps. GetSatHumRatio (lib system) (dryBulb p) pressure = Inr (humidityRatio p))
    \<and> ((\<forall>t1 t2 w1 w2. lo \<le> t1 \<and> t1 < t2 \<and> t2 \<le> hi
           \<and> GetSatHumRatio (lib system) (Fin t1) pressure = Inr w1
           \<and> GetSatHumRatio (lib system) (Fin t2) pressure = Inr w2 \<longrightarrow> js_le w1 w2)
        \<longrightarrow> sorted_wrt (\<lambda>a b. js_le (humidityRatio a) (humidityRatio b)) ps)"
proof -
  let ?g = "\<lambda>x. saturationBody (lib system) pressure (Fin x) []"
  let ?ps = "concat (map ?g (samples lo hi s))"
  have one: "sorted_wrt R (?g x)" for R x
  proof (cases "?g x")
    case Nil
    then show ?thesis by simp
  next
    case (Cons a as)
    then have "a \<in> set (?g x)" by simp
    from saturationBody_point [OF this] show ?thesis by simp
  qed
  have dry: "sorted_wrt (\<lambda>a b. js_lt (dryBulb a) (dryBulb b)) ?ps"
  proof (rule sorted_wrt_concat_map [OF samples_strict one])
    fix x y a b
    assume "x < y" "a \<in> set (?g x)" "b \<in> set (?g y)"
    then show "js_lt (dryBulb a) (dryBulb b)"
      using saturationBody_point [of a "lib system" pressure "Fin x"]
        saturationBody_point [of b "lib system" pressure "Fin y"] by simp
  qed
  have sat: "\<forall>p\<in>set ?ps. GetSatHumRatio (lib system) (dryBulb p) pressure = Inr (humidityRatio p)"
  proof
    fix p
    assume "p \<in> set ?ps"
    then obtain x where "p \<in> set (?g x)" by auto
    from saturationBody_point [OF this]
    show "GetSatHumRatio (lib system) (dryBulb p) pressure = Inr (humidityRatio p)" by simp
  qed
  have hum: "sorted_wrt (\<lambda>a b. js_le (humidityRatio a) (humidityRatio b)) ?ps"
    if mono: "\<forall>t1 t2 w1 w2. lo \<le> t1 \<and> t1 < t2 \<and> t2 \<le> hi
           \<and> GetSatHumRatio (lib system) (Fin t1) pressure = Inr w1
           \<and> GetSatHumRatio (lib system) (Fin t2) pressure = Inr w2 \<longrightarrow> js_le w1 w2"
  proof (rule sorted_wrt_concat_map [OF samples_strict one])
    fix x y a b
    assume x: "x \<in> set (samples lo hi s)" and y: "y \<in> set (samples lo hi s)"
      and xy: "x < y" and a: "a \<in> set (?g x)" and b: "b \<in> set (?g y)"
    from samples_lower [OF x] samples_lower [OF y] have r: "lo \<le> x" "y \<le> hi" by simp_all
    from saturationBody_point [OF a] saturationBody_point [OF b]
    have "GetSatHumRatio (lib system) (Fin x) pressure = Inr (humidityRatio a)"
      and "GetSatHumRatio (lib system) (Fin y) pressure = Inr (humidityRatio b)"
      by simp_all
    with mono r xy show "js_le (humidityRatio a) (humidityRatio b)" by blast
  qed
  from saturation_points [OF s] dry sat hum show ?thesis by blast
qed


lemma demo_saturation:
  "generateSaturationCurve demoLib SI (Fin 273) (Fin 0, Fin 1) (Fin (1 / 2)) =
   Some [\<lparr>dryBulb = Fin 0, humidityRatio = Fin (1 / 100), enthalpy = Fin 25\<rparr>,
         \<lparr>dryBulb = Fin (1 / 2), humidityRatio = Fin (201 / 20000), enthalpy = Fin (205 / 8)\<rparr>,
         \<lparr>dryBulb = Fin 1, humidityRatio = Fin (101 / 10000), enthalpy = Fin (105 / 4)\<rparr>]"
  by (simp add: generateSaturationCurve_def saturationBody_def for_le.simps demo_defs)

lemma demo_saturation_monotone:
  "\<forall>t1 t2 w1 w2. 0 \<le> t1 \<and> t1 < t2 \<and> t2 \<le> 1
     \<and> GetSatHumRatio (demoLib SI) (Fin t1) (Fin 273) = Inr w1
     \<and> GetSatHumRatio (demoLib SI) (Fin t2) (Fin 273) = Inr w2 \<longrightarrow> js_le w1 w2"
  by (auto simp: demoLib_def demoSat_def split: if_splits)

theorem C7_saturation_curve_monotone_witness:
  "(0 :: real) < 1 / 2
   \<and> generateSaturationCurve demoLib SI (Fin 273) (Fin 0, Fin 1) (Fin (1 / 2)) =
     Some [\<lparr>dryBulb = Fin 0, humidityRatio = Fin (1 / 100), enthalpy = Fin 25\<rparr>,
           \<lparr>dryBulb = Fin (1 / 2), humidityRatio = Fin (201 / 20000), enthalpy = Fin (205 / 8)\<rparr>,
           \<lparr>dryBulb = Fin 1, humidityRatio = Fin (101 / 10000), enthalpy = Fin (105 / 4)\<rparr>]
   \<and> sorted_wrt (\<lambda>a b. js_lt (dryBulb a) (dryBulb b))
        (the (generateSaturationCurve demoLib SI (Fin 273) (Fin 0, Fin 1) (Fin (1 / 2))))
   \<and> sorted_wrt (\<lambda>a b. js_le (humidityRatio a) (humidityRatio b))
        (the (generateSaturationCurve demoLib SI (Fin 273) (Fin 0, Fin 1) (Fin (1 / 2))))
   \<and> GetSatHumRatio (demoLib SI) (Fin (1 / 2)) (Fin 273) = Inr (Fin (201 / 20000))"
proof -
  have s: "(0 :: real) < 1 / 2" by simp
  from C7_saturation_curve_monotone [OF s, of demoLib SI "Fin 273" 0 1] demo_saturation_monotone
  obtain ps where ps: "generateSaturationCurve demoLib SI (Fin 273) (Fin 0, Fin 1) (Fin (1 / 2)) = Some ps"
    and "sorted_wrt (\<lambda>a b. js_lt (dryBulb a) (dryBulb b)) ps"
    and "\<forall>p\<in>set ps. GetSatHumRatio (demoLib SI) (dryBulb p) (Fin 273) = Inr (humidityRatio p)"
    and "sorted_wrt (\<lambda>a b. js_le (humidityRatio a) (humidityRatio b)) ps"
    by blast
  then show ?thesis using s demo_saturation by auto
qed


section \<open>Constant-enthalpy lines\<close>

lemma enthalpyBody_append:
  "enthalpyBody psy dryBulbRange target w ps = ps @ enthalpyBody psy dryBulbRange target w []"
  by (simp add: enthalpyBody_def pushPoint_def split: sum.splits)

lemma enthalpyBody_point:
  "p \<in> set (enthalpyBody psy dryBulbRange target w []) \<longleftrightarrow>
   humidityRatio p = w \<and> enthalpy p = target \<and>
   GetTDryBulbFromEnthalpyAndHumRatio psy target w = Inr (dryBulb p) \<and>
   js_ge (dryBulb p) (fst dryBulbRange) \<and> js_le (dryBulb p) (snd dryBulbRange) \<and>
   CurvePoint.more p = ()"
  by (cases p) (auto simp: enthalpyBody_def pushPoint_def split: sum.splits)

lemma enthalpyCurve_points:
  assumes s: "0 < s"
  shows "enthalpyCurve psy dryBulbRange (Fin s) target =
    Some \<lparr>level = target,
          points = concat (map (\<lambda>x. enthalpyBody psy dryBulbRange target (Fin x) [])
                     (samples 0 (6 / 100) s))\<rparr>"
proof -
  have "for_le (enthalpyBody psy dryBulbRange target) (Fin 0) (Fin (6 / 100)) (Fin s) [] =
      Some (foldl (\<lambda>ps x. enthalpyBody psy dryBulbRange target (Fin x) ps) [] (samples 0 (6 / 100) s))"
    by (rule for_le_samples [OF s])
  also have "foldl (\<lambda>ps x. enthalpyBody psy dryBulbRange target (Fin x) ps) [] (samples 0 (6 / 100) s) =
      [] @ concat (map (\<lambda>x. enthalpyBody psy dryBulbRange target (Fin x) []) (samples 0 (6 / 100) s))"
    by (rule foldl_append_emit) (rule enthalpyBody_append)
  finally show ?thesis by (simp add: enthalpyCurve_def)
qed

lemma samples_from_0:
  assumes s: "0 < s"
  shows "x \<in> set (samples 0 hi s) \<longleftrightarrow> (\<exists>n::nat. x = real n * s \<and> real n * s \<le> hi)"
proof
  assume x: "x \<in> set (samples 0 hi s)"
  from samples_multiple [OF x] obtain n :: nat where "x = real n * s" by auto
  with samples_lower [OF x] show "\<exists>n::nat. x = real n * s \<and> real n * s \<le> hi" by auto
next
  assume "\<exists>n::nat. x = real n * s \<and> real n * s \<le> hi"
  then obtain n :: nat where n: "x = real n * s" "real n * s \<le> hi" by auto
  from samples_member [OF s, of 0 n hi] n show "x \<in> set (samples 0 hi s)" by simp
qed

lemma generateEnthalpyLines_curves:
  assumes s: "0 < s"
  shows "generateEnthalpyLines lib system pressure dryBulbRange targets (Fin s) =
    Some (map (\<lambda>target. \<lparr>level = target,
          points = concat (map (\<lambda>x. enthalpyBody (lib system) dryBulbRange target (Fin x) [])
                     (samples 0 (6 / 100) s))\<rparr>) targets)"
  unfolding generateEnthalpyLines_def withUnitSystem_def
  by (rule mapM_all_Some) (rule enthalpyCurve_points [OF s])


lemma enthalpy_point_iff:
  assumes s: "0 < s"
  shows "p \<in> set (concat (map (\<lambda>x. enthalpyBody psy dryBulbRange target (Fin x) [])
                     (samples 0 (6 / 100) s))) \<longleftrightarrow>
    (\<exists>n::nat. real n * s \<le> 6 / 100 \<and> humidityRatio p = Fin (real n * s))
    \<and> enthalpy p = target
    \<and> GetTDryBulbFromEnthalpyAndHumRatio psy target (humidityRatio p) = Inr (dryBulb p)
    \<and> js_ge (dryBulb p) (fst dryBulbRange) \<and> js_le (dryBulb p) (snd dryBulbRange)"
  (is "?l \<longleftrightarrow> ?r")
proof
  assume ?l
  then obtain x where x: "x \<in> set (samples 0 (6 / 100) s)"
    and p: "p \<in> set (enthalpyBody psy dryBulbRange target (Fin x) [])" by auto
  from x obtain n :: nat where "x = real n * s" "real n * s \<le> 6 / 100"
    unfolding samples_from_0 [OF s] by auto
  with p show ?r unfolding enthalpyBody_point by auto
next
  assume r: ?r
  then obtain n :: nat where n: "real n * s \<le> 6 / 100" "humidityRatio p = Fin (real n * s)"
    by auto
  then have "real n * s \<in> set (samples 0 (6 / 100) s)"
    unfolding samples_from_0 [OF s] by auto
  moreover have "p \<in> set (enthalpyBody psy dryBulbRange target (Fin (real n * s)) [])"
    unfolding enthalpyBody_point using r n by simp
  ultimately show ?l by auto
qed

text \<open>
  Claim C8: for a positive step, \<^verbatim>\<open>generateEnthalpyLines\<close> returns one curve per target,
  and the points of a curve are exactly those with a humidity ratio \<open>n \<times> step \<le> 0.06\<close>,
  the dry bulb the solver's inversion \<^verbatim>\<open>GetTDryBulbFromEnthalpyAndHumRatio\<close> returns for
  the target and that humidity ratio (one call, no search), that dry bulb inside the
  requested domain, and the enthalpy field equal to the target. Consequently, when the
  solver's inversion is accurate to \<open>eps\<close> on humidity ratios in \<open>[0, 0.06]\<close>, the
  solver's enthalpy at every kept point is within \<open>eps\<close> of the target.
\<close>

theorem C8_enthalpy_line_points:
  assumes s: "0 < s"
  shows "\<exists>cs. generateEnthalpyLines lib system pressure dryBulbRange targets (Fin s) = Some cs
    \<and> length cs = length targets
    \<and> (\<forall>i<length targets. level (cs ! i) = targets ! i
        \<and> (\<forall>p. p \<in> set (points (cs ! i)) \<longleftrightarrow>
              (\<exists>n::nat. real n * s \<le> 6 / 100 \<and> humidityRatio p = Fin (real n * s))
              \<and> enthalpy p = targets ! i
              \<and> GetTDryBulbFromEnthalpyAndHumRatio (lib system) (targets ! i) (humidityRatio p)
                  = Inr (dryBulb p)
              \<and> js_ge (dryBulb p) (fst dryBulbRange) \<and> js_le (dryBulb p) (snd dryBulbRange))
        \<and> ((\<forall>w t. 0 \<le> w \<and> w \<le> 6 / 100
                \<and> GetTDryBulbFromEnthalpyAndHumRatio (lib system) (targets ! i) (Fin w) = Inr t
                \<longrightarrow> (\<exists>e. GetMoistAirEnthalpy (lib system) t (Fin w) = Inr e
                         \<and> js_le (js_abs (js_sub e (targets ! i))) eps))
            \<longrightarrow> (\<forall>p\<in>set (points (cs ! i)).
                   \<exists>e. GetMoistAirEnthalpy (lib system) (dryBulb p) (humidityRatio p) = Inr e
                     \<and> js_le (js_abs (js_sub e (targets ! i))) eps)))"
proof -
  let ?pts = "\<lambda>target. concat (map (\<lambda>x. enthalpyBody (lib system) dryBulbRange target (Fin x) [])
                     (samples 0 (6 / 100) s))"
  let ?cs = "map (\<lambda>target. \<lparr>level = target, points = ?pts target\<rparr>) targets"
  have gen: "generateEnthalpyLines lib system pressure dryBulbRange targets (Fin s) = Some ?cs"
    by (rule generateEnthalpyLines_curves [OF s])
  have len: "length ?cs = length targets" by simp
  have each: "level (?cs ! i) = targets ! i
        \<and> (\<forall>p. p \<in> set (points (?cs ! i)) \<longleftrightarrow>
              (\<exists>n::nat. real n * s \<le> 6 / 100 \<and> humidityRatio p = Fin (real n * s))
              \<and> enthalpy p = targets ! i
              \<and> GetTDryBulbFromEnthalpyAndHumRatio (lib system) (targets ! i) (humidityRatio p)
                  = Inr (dryBulb p)
              \<and> js_ge (dryBulb p) (fst dryBulbRange) \<and> js_le (dryBulb p) (snd dryBulbRange))
        \<and> ((\<forall>w t. 0 \<le> w \<and> w \<le> 6 / 100
                \<and> GetTDryBulbFromEnthalpyAndHumRatio (lib system) (targets ! i) (Fin w) = Inr t
                \<longrightarrow> (\<exists>e. GetMoistAirEnthalpy (lib system) t (Fin w) = Inr e
                         \<and> js_le (js_abs (js_sub e (targets ! i))) eps))
            \<longrightarrow> (\<forall>p\<in>set (points (?cs ! i)).
                   \<exists>e. GetMoistAirEnthalpy (lib system) (dryBulb p) (humidityRatio p) = Inr e
                     \<and> js_le (js_abs (js_sub e (targets ! i))) eps))"
    if i: "i < length targets" for i
  proof (intro conjI allI impI ballI)
    show "level (?cs ! i) = targets ! i" using i by simp
  next
    fix p
    show "p \<in> set (points (?cs ! i)) \<longleftrightarrow>
              (\<exists>n::nat. real n * s \<le> 6 / 100 \<and> humidityRatio p = Fin (real n * s))
              \<and> enthalpy p = targets ! i
              \<and> GetTDryBulbFromEnthalpyAndHumRatio (lib system) (targets ! i) (humidityRatio p)
                  = Inr (dryBulb p)
              \<and> js_ge (dryBulb p) (fst dryBulbRange) \<and> js_le (dryBulb p) (snd dryBulbRange)"
      using i enthalpy_point_iff [OF s, of p "lib system" dryBulbRange "targets ! i"] by simp
  next
    fix p
    assume acc: "\<forall>w t. 0 \<le> w \<and> w \<le> 6 / 100
                \<and> GetTDryBulbFromEnthalpyAndHumRatio (lib system) (targets ! i) (Fin w) = Inr t
                \<longrightarrow> (\<exists>e. GetMoistAirEnthalpy (lib system) t (Fin w) = Inr e
                         \<and> js_le (js_abs (js_sub e (targets ! i))) eps)"
      and p: "p \<in> set (points (?cs ! i))"
    from p i have "p \<in> set (?pts (targets ! i))" by simp
    then obtain n :: nat where n: "real n * s \<le> 6 / 100" "humidityRatio p = Fin (real n * s)"
      and inv: "GetTDryBulbFromEnthalpyAndHumRatio (lib system) (targets ! i) (humidityRatio p)
                  = Inr (dryBulb p)"
      unfolding enthalpy_point_iff [OF s] by auto
    have "0 \<le> real n * s" using s by simp
    with acc n inv
    show "\<exists>e. GetMoistAirEnthalpy (lib system) (dryBulb p) (humidityRatio p) = Inr e
                     \<and> js_le (js_abs (js_sub e (targets ! i))) eps"
      by simp
  qed
  from gen len each show ?thesis by blast
qed

lemma demo_enthalpy_lines:
  "generateEnthalpyLines demoLib SI (Fin 273) (Fin (- 20), Fin 60) [Fin 50] (Fin (2 / 100)) =
   Some [\<lparr>level = Fin 50,
           points = [\<lparr>dryBulb = Fin 50, humidityRatio = Fin 0, enthalpy = Fin 50\<rparr>,
                     \<lparr>dryBulb = Fin 0, humidityRatio = Fin (1 / 50), enthalpy = Fin 50\<rparr>]\<rparr>]"
  by (simp add: generateEnthalpyLines_def enthalpyCurve_def enthalpyBody_def for_le.simps demo_defs)

lemma demo_inversion_exact:
  "\<forall>w t. 0 \<le> w \<and> w \<le> 6 / 100
      \<and> GetTDryBulbFromEnthalpyAndHumRatio (demoLib SI) (Fin 50) (Fin w) = Inr t
      \<longrightarrow> (\<exists>e. GetMoistAirEnthalpy (demoLib SI) t (Fin w) = Inr e
               \<and> js_le (js_abs (js_sub e (Fin 50))) (Fin 0))"
  by (auto simp: demoLib_def demoDryBulb_def demoEnthalpy_def js_sub_def js_ge_def)

theorem C8_enthalpy_line_points_witness:
  "(0 :: real) < 2 / 100
   \<and> generateEnthalpyLines demoLib SI (Fin 273) (Fin (- 20), Fin 60) [Fin 50] (Fin (2 / 100)) =
     Some [\<lparr>level = Fin 50,
             points = [\<lparr>dryBulb = Fin 50, humidityRatio = Fin 0, enthalpy = Fin 50\<rparr>,
                       \<lparr>dryBulb = Fin 0, humidityRatio = Fin (1 / 50), enthalpy = Fin 50\<rparr>]\<rparr>]
   \<and> GetTDryBulbFromEnthalpyAndHumRatio (demoLib SI) (Fin 50) (Fin (1 / 50)) = Inr (Fin 0)
   \<and> (\<exists>e. GetMoistAirEnthalpy (demoLib SI) (Fin 0) (Fin (1 / 50)) = Inr e
          \<and> js_le (js_abs (js_sub e (Fin 50))) (Fin 0))"
proof -
  have s: "(0 :: real) < 2 / 100" by simp
  let ?p = "\<lparr>dryBulb = Fin 0, humidityRatio = Fin (1 / 50), enthalpy = Fin 50\<rparr>"
  let ?gen = "generateEnthalpyLines demoLib SI (Fin 273) (Fin (- 20), Fin 60) [Fin 50] (Fin (2 / 100))"
  from C8_enthalpy_line_points [OF s, of demoLib SI "Fin 273" "(Fin (- 20), Fin 60)" "[Fin 50]" "Fin 0"]
  obtain cs where cs: "?gen = Some cs"
    and each: "\<forall>i<length [Fin 50 :: num]. level (cs ! i) = [Fin 50] ! i
        \<and> (\<forall>p. p \<in> set (points (cs ! i)) \<longleftrightarrow>
              (\<exists>n::nat. real n * (2 / 100) \<le> 6 / 100 \<and> humidityRatio p = Fin (real n * (2 / 100)))
              \<and> enthalpy p = [Fin 50] ! i
              \<and> GetTDryBulbFromEnthalpyAndHumRatio (demoLib SI) ([Fin 50] ! i) (humidityRatio p)
                  = Inr (dryBulb p)
              \<and> js_ge (dryBulb p) (fst (Fin (- 20), Fin 60)) \<and> js_le (dryBulb p) (snd (Fin (- 20), Fin 60)))
        \<and> ((\<forall>w t. 0 \<le> w \<and> w \<le> 6 / 100
                \<and> GetTDryBulbFromEnthalpyAndHumRatio (demoLib SI) ([Fin 50] ! i) (Fin w) = Inr t
                \<longrightarrow> (\<exists>e. GetMoistAirEnthalpy (demoLib SI) t (Fin w) = Inr e
                         \<and> js_le (js_abs (js_sub e ([Fin 50] ! i))) (Fin 0)))
            \<longrightarrow> (\<forall>p\<in>set (points (cs ! i)).
                   \<exists>e. GetMoistAirEnthalpy (demoLib SI) (dryBulb p) (humidityRatio p) = Inr e
                     \<and> js_le (js_abs (js_sub e ([Fin 50] ! i))) (Fin 0)))"
    by blast
  from cs demo_enthalpy_lines have mem: "?p \<in> set (points (cs ! 0))" by auto
  from each have inv0: "p \<in> set (points (cs ! 0)) \<Longrightarrow>
      GetTDryBulbFromEnthalpyAndHumRatio (demoLib SI) (Fin 50) (humidityRatio p) = Inr (dryBulb p)" for p
    by simp
  from each have rt0: "(\<forall>w t. 0 \<le> w \<and> w \<le> 6 / 100
        \<and> GetTDryBulbFromEnthalpyAndHumRatio (demoLib SI) (Fin 50) (Fin w) = Inr t
        \<longrightarrow> (\<exists>e. GetMoistAirEnthalpy (demoLib SI) t (Fin w) = Inr e
               \<and> js_le (js_abs (js_sub e (Fin 50))) (Fin 0)))
      \<Longrightarrow> p \<in> set (points (cs ! 0)) \<Longrightarrow>
        \<exists>e. GetMoistAirEnthalpy (demoLib SI) (dryBulb p) (humidityRatio p) = Inr e
          \<and> js_le (js_abs (js_sub e (Fin 50))) (Fin 0)" for p
    by simp
  from inv0 [OF mem]
  have inv: "GetTDryBulbFromEnthalpyAndHumRatio (demoLib SI) (Fin 50) (Fin (1 / 50)) = Inr (Fin 0)"
    by simp
  from rt0 [OF demo_inversion_exact mem]
  have "\<exists>e. GetMoistAirEnthalpy (demoLib SI) (Fin 0) (Fin (1 / 50)) = Inr e
          \<and> js_le (js_abs (js_sub e (Fin 50))) (Fin 0)"
    by simp
  with s demo_enthalpy_lines inv show ?thesis by blast
qed

section \<open>What a sample can push\<close>

text \<open>An invariant of the points pushed so far holds of the result, whatever the step.\<close>

lemma for_le_invariant:
  assumes r: "for_le body t hi step acc = Some r"
    and acc: "P acc"
    and step: "\<And>x a. P a \<Longrightarrow> P (body x a)"
  shows "P r"
proof -
  have "(\<forall>x a. P a \<longrightarrow> P (body x a)) \<longrightarrow> P acc \<longrightarrow> P r"
    using r
  proof (induction rule: for_le.raw_induct [rotated, consumes 1])
    case (1 for_le body t hi step acc r)
    show ?case
    proof (intro impI)
      assume b: "\<forall>x a. P a \<longrightarrow> P (body x a)" and a: "P acc"
      show "P r"
      proof (cases "js_le t hi")
        case True
        with "1.hyps" have "for_le body (js_add t step) hi step (body t acc) = Some r" by simp
        from "1.IH" [OF this] b a show ?thesis by simp
      next
        case False
        with "1.hyps" a show ?thesis by simp
      qed
    qed
  qed
  with acc step show ?thesis by simp
qed

lemma relativeHumidityBody_append:
  "relativeHumidityBody psy pressure lvl t ps = ps @ relativeHumidityBody psy pressure lvl t []"
  by (simp add: relativeHumidityBody_def andThen_def pushPoint_def split: sum.splits)

lemma wetBulbBody_append:
  "wetBulbBody psy pressure target t ps = ps @ wetBulbBody psy pressure target t []"
  by (simp add: wetBulbBody_def pushPoint_def split: sum.splits)

lemma specificVolumeBody_append:
  "specificVolumeBody psy pressure target tolerance t ps =
   ps @ specificVolumeBody psy pressure target tolerance t []"
  by (simp add: specificVolumeBody_def pushPoint_def split: sum.splits)

text \<open>A throw of the first solver call of a sample pushes nothing.\<close>

lemma throw_drops_sample:
  "GetSatHumRatio psy t pressure = Inl e \<Longrightarrow> saturationBody psy pressure t ps = ps"
  "GetHumRatioFromRelHum psy t lvl pressure = Inl e \<Longrightarrow> relativeHumidityBody psy pressure lvl t ps = ps"
  "GetTDryBulbFromEnthalpyAndHumRatio psy target t = Inl e \<Longrightarrow> enthalpyBody psy dryBulbRange target t ps = ps"
  "GetHumRatioFromTWetBulb psy t target pressure = Inl e \<Longrightarrow> wetBulbBody psy pressure target t ps = ps"
  "GetSatHumRatio psy t pressure = Inl e \<Longrightarrow> specificVolumeBody psy pressure target tolerance t ps = ps"
  by (simp_all add: saturationBody_def relativeHumidityBody_def enthalpyBody_def wetBulbBody_def
        specificVolumeBody_def andThen_def)

text \<open>Every sample pushes at most one point.\<close>

lemma sample_pushes_at_most_one:
  "length (saturationBody psy pressure t []) \<le> 1"
  "length (relativeHumidityBody psy pressure lvl t []) \<le> 1"
  "length (enthalpyBody psy dryBulbRange target t []) \<le> 1"
  "length (wetBulbBody psy pressure target t []) \<le> 1"
  "length (specificVolumeBody psy pressure target tolerance t []) \<le> 1"
  by (simp_all add: saturationBody_def relativeHumidityBody_def enthalpyBody_def wetBulbBody_def
        specificVolumeBody_def andThen_def pushPoint_def split: sum.splits)

lemma wetBulbBody_finite:
  "\<forall>p\<in>set ps. isFinite (humidityRatio p) \<Longrightarrow>
   \<forall>p\<in>set (wetBulbBody psy pressure target t ps). isFinite (humidityRatio p)"
  by (auto simp: wetBulbBody_def pushPoint_def split: sum.splits)

lemma specificVolumeBody_finite:
  "\<forall>p\<in>set ps. isFinite (humidityRatio p) \<Longrightarrow>
   \<forall>p\<in>set (specificVolumeBody psy pressure target tolerance t ps). isFinite (humidityRatio p)"
proof -
  have fin: "isFinite w" if "js_le w satHum" "isFinite satHum" "js_gt w (Fin 0)" for w satHum
    using that by (cases w; cases satHum) (simp_all add: js_gt_def)
  assume "\<forall>p\<in>set ps. isFinite (humidityRatio p)"
  then show ?thesis
    by (auto simp: specificVolumeBody_def pushPoint_def split: sum.splits intro: fin)
qed

text \<open>
  Whatever the step, the points that \<^verbatim>\<open>generateWetBulbLines\<close> and
  \<^verbatim>\<open>generateSpecificVolumeLines\<close> return have a finite humidity ratio.
\<close>

lemma wetBulbCurve_finite:
  assumes "wetBulbCurve psy pressure dryBulbRange step target = Some c"
  shows "\<forall>p\<in>set (points c). isFinite (humidityRatio p)"
proof (cases "isFinite target")
  case False
  with assms show ?thesis by (auto simp: wetBulbCurve_def)
next
  case True
  with assms obtain ps where ps: "for_le (wetBulbBody psy pressure target)
      (Math_max target (fst dryBulbRange)) (snd dryBulbRange) step [] = Some ps"
    and c: "c = \<lparr>level = target, points = ps\<rparr>"
    by (auto simp: wetBulbCurve_def Let_def)
  have "\<forall>p\<in>set ps. isFinite (humidityRatio p)"
    by (rule for_le_invariant [OF ps]) (simp_all add: wetBulbBody_finite)
  with c show ?thesis by simp
qed

lemma specificVolumeCurve_finite:
  assumes "specificVolumeCurve psy pressure dryBulbRange step tolerance target = Some c"
  shows "\<forall>p\<in>set (points c). isFinite (humidityRatio p)"
proof (cases "\<not> isFinite target \<or> js_le target (Fin 0)")
  case True
  with assms show ?thesis by (auto simp: specificVolumeCurve_def)
next
  case False
  with assms obtain ps where ps: "for_le (specificVolumeBody psy pressure target tolerance)
      (fst dryBulbRange) (snd dryBulbRange) step [] = Some ps"
    and c: "c = \<lparr>level = target, points = ps\<rparr>"
    by (auto simp: specificVolumeCurve_def)
  have "\<forall>p\<in>set ps. isFinite (humidityRatio p)"
    by (rule for_le_invariant [OF ps]) (simp_all add: specificVolumeBody_finite)
  with c show ?thesis by simp
qed

end
